theory Spec2Isabelle
  imports Main "HOL-Library.Log_Nat"
begin

section \<open>Python strings\<close>

text \<open>
  A Python \<open>str\<close> is modelled as a \<open>string\<close>: a list of characters, each standing for
  the code point of the same number (U+0000 to U+00FF). The string methods the node
  calls (\<open>split\<close>, \<open>lower\<close>, \<open>strip\<close>, \<open>replace\<close>) are written out on that range.
\<close>

text \<open>\<open>s.split(c)\<close> for a one-character separator: never empty, one more piece than
  there are separators.\<close>

fun py_split :: "char \<Rightarrow> string \<Rightarrow> string list" where
  "py_split c [] = [[]]"
| "py_split c (x # xs) =
     (if x = c then [] # py_split c xs
      else (case py_split c xs of
              [] \<Rightarrow> [[x]]
            | w # ws \<Rightarrow> (x # w) # ws))"

text \<open>\<open>str.lower()\<close>, one character at a time: A to Z, and the Latin-1 capitals
  U+00C0 to U+00DE but for the multiplication sign U+00D7.\<close>

definition lower_char :: "char \<Rightarrow> char" where
  "lower_char c =
     (let n = of_char c :: nat in
      if (65 \<le> n \<and> n \<le> 90) \<or> (192 \<le> n \<and> n \<le> 222 \<and> n \<noteq> 215)
      then char_of (n + 32) else c)"

definition py_lower :: "string \<Rightarrow> string" where
  "py_lower s = map lower_char s"

text \<open>\<open>str.isspace()\<close> on one character.\<close>

definition is_space :: "char \<Rightarrow> bool" where
  "is_space c =
     (let n = of_char c :: nat in
      (9 \<le> n \<and> n \<le> 13) \<or> (28 \<le> n \<and> n \<le> 32) \<or> n = 133 \<or> n = 160)"

definition py_lstrip :: "string \<Rightarrow> string" where
  "py_lstrip s = dropWhile is_space s"

definition py_rstrip :: "string \<Rightarrow> string" where
  "py_rstrip s = rev (dropWhile is_space (rev s))"

definition py_strip :: "string \<Rightarrow> string" where
  "py_strip s = py_rstrip (py_lstrip s)"

text \<open>\<open>s.startswith(p)\<close>.\<close>

fun startswith :: "string \<Rightarrow> string \<Rightarrow> bool" where
  "startswith s [] = True"
| "startswith [] (p # ps) = False"
| "startswith (x # xs) (p # ps) = (x = p \<and> startswith xs ps)"

text \<open>\<open>s.replace(old, new)\<close> for a non-empty \<open>old\<close>: every occurrence, left to
  right, without overlap.\<close>

function py_replace :: "string \<Rightarrow> string \<Rightarrow> string \<Rightarrow> string" where
  "py_replace old new [] = []"
| "py_replace old new (x # xs) =
     (if old \<noteq> [] \<and> startswith (x # xs) old
      then new @ py_replace old new (drop (length old) (x # xs))
      else x # py_replace old new xs)"
  by pat_completeness auto
termination
  by (relation "measure (\<lambda>(old, new, s). length s)") auto

text \<open>\<open>str(n)\<close> for a Python \<open>int\<close>.\<close>

definition digit_char :: "nat \<Rightarrow> char" where
  "digit_char d = ''0123456789'' ! d"

fun str_nat :: "nat \<Rightarrow> string" where
  "str_nat n = (if n < 10 then [digit_char n] else str_nat (n div 10) @ [digit_char (n mod 10)])"

declare str_nat.simps [simp del]

definition str_int :: "int \<Rightarrow> string" where
  "str_int i = (if i < 0 then CHR ''-'' # str_nat (nat (- i)) else str_nat (nat i))"

text \<open>The format spec \<open>{i:0wd}\<close>: the sign first, then zeros up to the width \<open>w\<close>
  (which counts the sign), then the digits.\<close>

definition format_0d :: "nat \<Rightarrow> int \<Rightarrow> string" where
  "format_0d w i =
     (if i < 0
      then CHR ''-'' # replicate (w - 1 - length (str_nat (nat (- i)))) CHR ''0'' @ str_nat (nat (- i))
      else replicate (w - length (str_nat (nat i))) CHR ''0'' @ str_nat (nat i))"

section \<open>Python numbers\<close>

datatype pyexn =
  AttributeError | TypeError | ValueError | OverflowError | KeyError | OSError
  | RequestException | JSONDecodeError

text \<open>
  A Python \<open>float\<close> is an IEEE 754 double: a finite one is given by its exact value,
  and \<open>NonFinite\<close> stands for \<open>inf\<close>, \<open>-inf\<close> and \<open>nan\<close> (every operation used here
  maps these to one of them again, and \<open>int()\<close> of one raises). The results of the
  float operations are rounded to the nearest double, ties to even.
\<close>

datatype pyfloat = Finite rat | NonFinite

datatype pynum = PyInt int | PyFloat pyfloat

text \<open>The \<open>e\<close> with \<open>2 ^ e \<le> y < 2 ^ (e + 1)\<close>, for \<open>y > 0\<close>.\<close>

definition floor_log2 :: "rat \<Rightarrow> int" where
  "floor_log2 y =
     (if 1 \<le> y then bitlen \<lfloor>y\<rfloor> - 1 else - bitlen (\<lceil>1 / y\<rceil> - 1))"

definition round_half_even :: "rat \<Rightarrow> int" where
  "round_half_even y =
     (let f = \<lfloor>y\<rfloor>; d = y - of_int f
      in if d < 1 / 2 then f
         else if 1 / 2 < d then f + 1
         else if even f then f else f + 1)"

text \<open>Rounding to 53 significant bits, or to a multiple of \<open>2 ^ -1074\<close> below the
  normal range.\<close>

definition round_double :: "rat \<Rightarrow> rat" where
  "round_double y =
     (if y = 0 then 0
      else let q = 2 powi (max (floor_log2 \<bar>y\<bar>) (- 1022) - 52)
           in of_int (round_half_even (y / q)) * q)"

definition fl :: "rat \<Rightarrow> pyfloat" where
  "fl y = (let r = round_double y in if 2 ^ 1024 \<le> \<bar>r\<bar> then NonFinite else Finite r)"

fun f_lift2 :: "(rat \<Rightarrow> rat \<Rightarrow> rat) \<Rightarrow> pyfloat \<Rightarrow> pyfloat \<Rightarrow> pyfloat" where
  "f_lift2 f (Finite a) (Finite b) = fl (f a b)"
| "f_lift2 f _ _ = NonFinite"

definition f_add :: "pyfloat \<Rightarrow> pyfloat \<Rightarrow> pyfloat" where
  "f_add = f_lift2 (+)"

definition f_sub :: "pyfloat \<Rightarrow> pyfloat \<Rightarrow> pyfloat" where
  "f_sub = f_lift2 (-)"

definition f_mul :: "pyfloat \<Rightarrow> pyfloat \<Rightarrow> pyfloat" where
  "f_mul = f_lift2 (*)"

text \<open>Division by a divisor that is not zero (the only divisor here is 60).\<close>

definition f_div :: "pyfloat \<Rightarrow> pyfloat \<Rightarrow> pyfloat" where
  "f_div = f_lift2 (/)"

definition truncate_rat :: "rat \<Rightarrow> int" where
  "truncate_rat a = (if a < 0 then \<lceil>a\<rceil> else \<lfloor>a\<rfloor>)"

text \<open>C's \<open>fmod\<close> and \<open>floor\<close>, both exact.\<close>

fun f_fmod :: "pyfloat \<Rightarrow> pyfloat \<Rightarrow> pyfloat" where
  "f_fmod (Finite a) (Finite b) = Finite (a - b * of_int (truncate_rat (a / b)))"
| "f_fmod _ _ = NonFinite"

fun f_floor :: "pyfloat \<Rightarrow> pyfloat" where
  "f_floor (Finite a) = Finite (of_int \<lfloor>a\<rfloor>)"
| "f_floor NonFinite = NonFinite"

fun f_is_zero :: "pyfloat \<Rightarrow> bool" where
  "f_is_zero (Finite a) = (a = 0)"
| "f_is_zero NonFinite = False"

fun f_less :: "pyfloat \<Rightarrow> pyfloat \<Rightarrow> bool" where
  "f_less (Finite a) (Finite b) = (a < b)"
| "f_less _ _ = False"

text \<open>
  \<open>float.__divmod__\<close> of CPython, which \<open>//\<close> and \<open>%\<close> on floats go through:
  \<^verbatim>\<open>
  mod = fmod(vx, wx); div = (vx - mod) / wx;
  if (mod) { if ((wx < 0) != (mod < 0)) { mod += wx; div -= 1.0; } }
  else mod = copysign(0.0, wx);
  if (div) { floordiv = floor(div); if (div - floordiv > 0.5) floordiv += 1.0; }
  else floordiv = copysign(0.0, vx / wx);
  \<close>
  The sign of a zero is not kept: no operation below tells the two zeros apart.
\<close>

definition float_divmod :: "pyfloat \<Rightarrow> pyfloat \<Rightarrow> pyfloat \<times> pyfloat" where
  "float_divmod vx wx =
     (let mod0 = f_fmod vx wx;
          div0 = f_div (f_sub vx mod0) wx;
          adjust = (\<not> f_is_zero mod0 \<and> (f_less wx (Finite 0) \<noteq> f_less mod0 (Finite 0)));
          mod1 = (if adjust then f_add mod0 wx else mod0);
          div1 = (if adjust then f_sub div0 (Finite 1) else div0);
          floordiv =
            (if \<not> f_is_zero div1
             then (let fd = f_floor div1
                   in if f_less (Finite (1 / 2)) (f_sub div1 fd) then f_add fd (Finite 1) else fd)
             else Finite 0)
      in (floordiv, mod1))"

text \<open>\<open>x // k\<close>, \<open>x % k\<close>, \<open>x - i\<close> and \<open>x * k\<close> for a number \<open>x\<close> and \<open>int\<close>s
  \<open>k \<noteq> 0\<close> and \<open>i\<close>; \<open>int(x)\<close>.\<close>

fun py_floordiv :: "pynum \<Rightarrow> int \<Rightarrow> pynum" where
  "py_floordiv (PyInt n) k = PyInt (n div k)"
| "py_floordiv (PyFloat x) k = PyFloat (fst (float_divmod x (fl (of_int k))))"

fun py_mod :: "pynum \<Rightarrow> int \<Rightarrow> pynum" where
  "py_mod (PyInt n) k = PyInt (n mod k)"
| "py_mod (PyFloat x) k = PyFloat (snd (float_divmod x (fl (of_int k))))"

fun py_sub :: "pynum \<Rightarrow> int \<Rightarrow> pynum" where
  "py_sub (PyInt n) i = PyInt (n - i)"
| "py_sub (PyFloat x) i = PyFloat (f_sub x (fl (of_int i)))"

fun py_mul :: "pynum \<Rightarrow> int \<Rightarrow> pynum" where
  "py_mul (PyInt n) k = PyInt (n * k)"
| "py_mul (PyFloat x) k = PyFloat (f_mul x (fl (of_int k)))"

fun py_int :: "pynum \<Rightarrow> pyexn + int" where
  "py_int (PyInt n) = Inr n"
| "py_int (PyFloat (Finite a)) = Inr (truncate_rat a)"
| "py_int (PyFloat NonFinite) = Inl ValueError"

section \<open>JSON values\<close>

text \<open>
  What \<open>json.loads\<close> returns: \<open>None\<close>, a \<open>bool\<close>, an \<open>int\<close>, a \<open>float\<close>, a
  \<open>str\<close>, a \<open>list\<close> or a \<open>dict\<close> (its items in insertion order, each key once).
\<close>

datatype json =
  JNull | JBool bool | JInt int | JFloat pyfloat | JStr string
  | JArr "json list" | JObj "(string \<times> json) list"

text \<open>\<open>v.get(key, default)\<close>: only a \<open>dict\<close> has the method.\<close>

fun dict_get :: "json \<Rightarrow> string \<Rightarrow> json \<Rightarrow> pyexn + json" where
  "dict_get (JObj kvs) k d = Inr (case map_of kvs k of None \<Rightarrow> d | Some v \<Rightarrow> v)"
| "dict_get _ k d = Inl AttributeError"

text \<open>\<open>for x in v\<close>: the items of a list, the keys of a dict, the characters of a
  string; nothing else can be iterated.\<close>

fun py_iter :: "json \<Rightarrow> pyexn + json list" where
  "py_iter (JArr xs) = Inr xs"
| "py_iter (JObj kvs) = Inr (map (\<lambda>kv. JStr (fst kv)) kvs)"
| "py_iter (JStr s) = Inr (map (\<lambda>c. JStr [c]) s)"
| "py_iter _ = Inl TypeError"

text \<open>The operand of \<open>//\<close>, \<open>%\<close> and \<open>-\<close> with an \<open>int\<close>: a number (a \<open>bool\<close> is
  an \<open>int\<close>), or a \<open>TypeError\<close>.\<close>

fun as_number :: "json \<Rightarrow> pyexn + pynum" where
  "as_number (JInt n) = Inr (PyInt n)"
| "as_number (JBool b) = Inr (PyInt (if b then 1 else 0))"
| "as_number (JFloat x) = Inr (PyFloat x)"
| "as_number _ = Inl TypeError"

text \<open>\<open>v.strip()\<close>: only a \<open>str\<close> has the method.\<close>

fun json_strip :: "json \<Rightarrow> pyexn + string" where
  "json_strip (JStr s) = Inr (py_strip s)"
| "json_strip _ = Inl AttributeError"

section \<open>The node and its surroundings\<close>

definition DEFAULT_PROMPT :: string where
  "DEFAULT_PROMPT = ''Translate the audio file using the style and guidance of [user_input]''"

definition SUPPORTED_AUDIO_FORMATS :: "string list" where
  "SUPPORTED_AUDIO_FORMATS = [''mp3'', ''mp4'', ''mpeg'', ''mpga'', ''m4a'', ''wav'', ''webm'']"

text \<open>The request handed to \<open>requests.post\<close>: \<open>url\<close>, \<open>headers\<close>, \<open>files\<close> and
  \<open>data\<close>, the last with its optional \<open>prompt\<close> entry.\<close>

record request =
  url :: string
  authorization :: string
  file_name :: string
  file_data :: string
  data_model :: string
  data_response_format :: string
  data_temperature :: string
  data_prompt :: "string option"

record response =
  status_code :: int
  reason :: string
  resp_text :: string

text \<open>
  Everything the handler reads from outside itself: the file system, the node's
  configuration (\<open>self.api_key\<close>), the imported helper \<open>get_prompt_content\<close> applied to
  \<open>self.prompt_options\<close>, the HTTP transport (what the attempt of a given number, from
  0, does with the request: raise or answer), and the library functions \<open>json.loads\<close>,
  \<open>json.dumps\<close> (with its \<open>indent\<close>), \<open>os.path.basename\<close> and \<open>str\<close> on a float.
\<close>

record world =
  isfile :: "string \<Rightarrow> bool"
  read_file :: "string \<Rightarrow> pyexn + string"
  api_key :: string
  get_prompt_content :: "string \<Rightarrow> pyexn + string"
  post :: "nat \<Rightarrow> request \<Rightarrow> pyexn + response"
  json_loads :: "string \<Rightarrow> pyexn + json"
  json_dumps :: "json \<Rightarrow> nat \<Rightarrow> string"
  basename :: "string \<Rightarrow> string"
  str_float :: "pyfloat \<Rightarrow> string"

text \<open>What the handler does to its surroundings, in order (the diagnostic prints are
  left out): reading the file, one HTTP attempt, sleeping so many seconds.\<close>

datatype event = EvRead string | EvPost nat request | EvSleep nat

type_synonym result = "string \<times> bool \<times> string"

section \<open>process\_translation\_request\<close>

text \<open>An exception raised by one step skips the steps after it.\<close>

definition bind :: "pyexn + 'a \<Rightarrow> ('a \<Rightarrow> pyexn + 'b) \<Rightarrow> pyexn + 'b" where
  "bind m f = (case m of Inl e \<Rightarrow> Inl e | Inr x \<Rightarrow> f x)"

text \<open>\<open>file_path.split('.')[-1].lower()\<close>; the list \<open>split\<close> returns is never empty,
  so its last element is there.\<close>

definition file_extension :: "string \<Rightarrow> string" where
  "file_extension file_path = py_lower (last (py_split CHR ''.'' file_path))"

text \<open>The prompt: \<open>None\<close> or a string. The lookup of a preset is outside every
  \<open>try\<close>, so what it raises leaves the handler.\<close>

definition prepare_prompt :: "world \<Rightarrow> string \<Rightarrow> string \<Rightarrow> pyexn + string option" where
  "prepare_prompt w preset user_input =
     (if preset = DEFAULT_PROMPT
      then Inr (if user_input \<noteq> []
                then Some (py_replace ''[user_input]'' (py_strip user_input) DEFAULT_PROMPT)
                else None)
      else bind (get_prompt_content w preset)
             (\<lambda>prompt_template.
                Inr (Some (py_replace ''[user_input]'' (py_strip user_input) prompt_template))))"

definition api_response_format_of :: "string \<Rightarrow> string option" where
  "api_response_format_of response_format =
     (if response_format \<in> set [''json'', ''verbose_json'', ''text''] then Some response_format
      else if response_format \<in> set [''text_with_timestamps'', ''text_with_linebreaks'']
      then Some ''verbose_json''
      else None)"

text \<open>\<open>data['prompt']\<close> is set only for a prompt that is neither \<open>None\<close> nor empty.\<close>

definition build_request ::
  "world \<Rightarrow> string \<Rightarrow> string \<Rightarrow> string \<Rightarrow> string option \<Rightarrow> string \<Rightarrow> pyfloat \<Rightarrow> request" where
  "build_request w model file_path audio_data prompt api_response_format temperature =
     \<lparr> url = ''https://api.groq.com/openai/v1/audio/translations'',
       authorization = ''Bearer '' @ api_key w,
       file_name = basename w file_path,
       file_data = audio_data,
       data_model = model,
       data_response_format = api_response_format,
       data_temperature = str_float w temperature,
       data_prompt = (case prompt of None \<Rightarrow> None | Some p \<Rightarrow> if p \<noteq> [] then Some p else None) \<rparr>"

text \<open>The body of the loop over the segments for \<open>text_with_timestamps\<close>: the line
  of one segment.\<close>

definition timestamp_line :: "json \<Rightarrow> pyexn + string" where
  "timestamp_line segment =
     bind (dict_get segment ''start'' (JInt 0)) (\<lambda>start.
     bind (as_number start) (\<lambda>start_time.
     bind (py_int (py_floordiv start_time 60)) (\<lambda>minutes.
     bind (py_int (py_mod start_time 60)) (\<lambda>seconds.
     bind (py_int start_time) (\<lambda>whole.
     bind (py_int (py_mul (py_sub start_time whole) 1000)) (\<lambda>milliseconds.
     let timestamp = ''['' @ format_0d 2 minutes @ '':'' @ format_0d 2 seconds @ ''.''
                     @ format_0d 3 milliseconds @ '']''
     in bind (dict_get segment ''text'' (JStr [])) (\<lambda>t.
        bind (json_strip t) (\<lambda>text.
        Inr (timestamp @ text @ [CHR 0x0A])))))))))"

text \<open>The one for \<open>text_with_linebreaks\<close>.\<close>

definition linebreak_line :: "json \<Rightarrow> pyexn + string" where
  "linebreak_line segment =
     bind (dict_get segment ''text'' (JStr [])) (\<lambda>t.
     bind (json_strip t) (\<lambda>text.
     Inr (text @ [CHR 0x0A])))"

text \<open>\<open>for segment in segments: translation_text += line\<close>.\<close>

fun segments_loop :: "(json \<Rightarrow> pyexn + string) \<Rightarrow> json list \<Rightarrow> string \<Rightarrow> pyexn + string" where
  "segments_loop line [] translation_text = Inr translation_text"
| "segments_loop line (segment # segments) translation_text =
     bind (line segment) (\<lambda>l. segments_loop line segments (translation_text @ l))"

definition segments_text :: "(json \<Rightarrow> pyexn + string) \<Rightarrow> json \<Rightarrow> pyexn + result option" where
  "segments_text line response_json =
     bind (dict_get response_json ''segments'' (JArr [])) (\<lambda>segments.
     bind (py_iter segments) (\<lambda>items.
     bind (segments_loop line items []) (\<lambda>translation_text.
     Inr (Some (py_strip translation_text, True, ''200 OK'')))))"

text \<open>
  What the \<open>try\<close> block does with a response: \<open>Inl\<close> an exception raised in it,
  \<open>Inr None\<close> when it ends without a \<open>return\<close>, \<open>Inr (Some r)\<close> when it returns \<open>r\<close>.
\<close>

definition handle_response :: "world \<Rightarrow> string \<Rightarrow> string \<Rightarrow> response \<Rightarrow> pyexn + result option" where
  "handle_response w api_response_format response_format response =
     (if status_code response = 200 then
        (if api_response_format = ''text'' then
           (if response_format = ''text'' then Inr (Some (resp_text response, True, ''200 OK''))
            else Inr None)
         else if api_response_format \<in> set [''json'', ''verbose_json''] then
           (case json_loads w (resp_text response) of
              Inl e \<Rightarrow>
                Inr (Some (''Error parsing JSON response.'', False, ''200 OK but failed to parse JSON''))
            | Inr response_json \<Rightarrow>
                if response_format = ''json'' then
                  Inr (Some (json_dumps w response_json 4, True, ''200 OK''))
                else if response_format = ''verbose_json'' then
                  Inr (Some (json_dumps w response_json 4, True, ''200 OK''))
                else if response_format = ''text_with_timestamps'' then
                  segments_text timestamp_line response_json
                else if response_format = ''text_with_linebreaks'' then
                  segments_text linebreak_line response_json
                else Inr None)
         else Inr (Some (''Unknown api_response_format.'', False, ''400 Bad Request'')))
      else Inr (Some (resp_text response, False,
                      str_int (status_code response) @ '' '' @ reason response)))"

text \<open>
  \<open>for attempt in range(max_retries)\<close>, with the number of attempts left and the number
  of the next one. Every exception of the \<open>try\<close> block, from the transport or from the
  handling of the response, is caught: the handler sleeps 2 seconds and goes on.
\<close>

fun retry_loop ::
  "world \<Rightarrow> request \<Rightarrow> string \<Rightarrow> string \<Rightarrow> nat \<Rightarrow> nat \<Rightarrow> result \<times> event list" where
  "retry_loop w req api_response_format response_format 0 attempt =
     ((''Failed after all retries.'', False, ''Failed after all retries''), [])"
| "retry_loop w req api_response_format response_format (Suc left) attempt =
     (case bind (post w attempt req) (handle_response w api_response_format response_format) of
        Inl e \<Rightarrow>
          (let (r, evs) = retry_loop w req api_response_format response_format left (Suc attempt)
           in (r, EvPost attempt req # EvSleep 2 # evs))
      | Inr None \<Rightarrow>
          (let (r, evs) = retry_loop w req api_response_format response_format left (Suc attempt)
           in (r, EvPost attempt req # evs))
      | Inr (Some r) \<Rightarrow> (r, [EvPost attempt req]))"

text \<open>The handler: what it returns or raises, and what it did on the way.\<close>

definition process_translation_request ::
  "world \<Rightarrow> string \<Rightarrow> string \<Rightarrow> string \<Rightarrow> string \<Rightarrow> string \<Rightarrow> pyfloat \<Rightarrow> int
     \<Rightarrow> (pyexn + result) \<times> event list" where
  "process_translation_request w model file_path preset user_input response_format temperature
       max_retries =
     (if \<not> isfile w file_path then (Inr (''File not found.'', False, ''400 Bad Request''), [])
      else if file_extension file_path \<notin> set SUPPORTED_AUDIO_FORMATS then
        (Inr (''Unsupported audio format '' @ [CHR 0x27] @ file_extension file_path @ [CHR 0x27] @ ''.'',
              False, ''400 Bad Request''), [])
      else
        (case read_file w file_path of
           Inl e \<Rightarrow> (Inr (''Error reading audio file.'', False, ''400 Bad Request''), [EvRead file_path])
         | Inr audio_data \<Rightarrow>
             (case prepare_prompt w preset user_input of
                Inl e \<Rightarrow> (Inl e, [EvRead file_path])
              | Inr prompt \<Rightarrow>
                  (case api_response_format_of response_format of
                     None \<Rightarrow>
                       (Inr (''Unknown response format.'', False, ''400 Bad Request''),
                        [EvRead file_path])
                   | Some api_response_format \<Rightarrow>
                       (let req = build_request w model file_path audio_data prompt
                                    api_response_format temperature;
                            (r, evs) = retry_loop w req api_response_format response_format
                                         (nat max_retries) 0
                        in (Inr r, EvRead file_path # evs))))))"

section \<open>Reading a result\<close>

text \<open>The number a string of decimal digits stands for.\<close>

definition digits_value :: "string \<Rightarrow> nat" where
  "digits_value s = foldl (\<lambda>a c. 10 * a + (of_char c - 48)) 0 s"

text \<open>The success flag of a result says the same as its status.\<close>

definition status_agrees :: "result \<Rightarrow> bool" where
  "status_agrees r = (fst (snd r) = (snd (snd r) = ''200 OK''))"

section \<open>Segments as the specification reads them\<close>

text \<open>
  A segment of the remote response is an object with a \<open>start\<close>, a number of
  seconds, and a \<open>text\<close>, a string; the handler takes 0 and the empty string for a
  field that is absent.
\<close>

fun text_of :: "json \<Rightarrow> string" where
  "text_of (JObj kvs) = (case map_of kvs ''text'' of Some (JStr s) \<Rightarrow> s | _ \<Rightarrow> [])"
| "text_of _ = []"

text \<open>The segment is an object, and its \<open>text\<close>, if it has one, is a string.\<close>

fun has_text :: "json \<Rightarrow> bool" where
  "has_text (JObj kvs) =
     (case map_of kvs ''text'' of None \<Rightarrow> True | Some (JStr s) \<Rightarrow> True | Some _ \<Rightarrow> False)"
| "has_text _ = False"

text \<open>The text for \<open>text_with_linebreaks\<close> in the words of the specification: each
  segment's trimmed text and a line break, in order, with trailing whitespace trimmed.\<close>

definition linebreaks_text_as_specified :: "json list \<Rightarrow> string" where
  "linebreaks_text_as_specified segments =
     py_rstrip (concat (map (\<lambda>segment. py_strip (text_of segment) @ [CHR 0x0A]) segments))"








section \<open>Example surroundings\<close>

text \<open>
  A small world to run the handler in: four files exist and can be read, the preset
  \<open>formal\<close> has a template of its own and every other name the bare placeholder, the
  transport does what \<open>answers\<close> says for each attempt, and every body parses to
  \<open>parsed\<close>.
\<close>

definition example_world :: "(nat \<Rightarrow> pyexn + response) \<Rightarrow> (pyexn + json) \<Rightarrow> world" where
  "example_world answers parsed =
     \<lparr> isfile = (\<lambda>p. p \<in> set [''a.mp3'', ''a.txt'', ''wav'', ''notes'']),
       read_file = (\<lambda>p. Inr ''RIFF''),
       api_key = ''key'',
       get_prompt_content =
         (\<lambda>name. Inr (if name = ''formal'' then ''Formal register. [user_input]''
                        else ''[user_input]'')),
       post = (\<lambda>attempt req. answers attempt),
       json_loads = (\<lambda>body. parsed),
       json_dumps = (\<lambda>j indent. ''{}''),
       basename = (\<lambda>p. p),
       str_float = (\<lambda>x. ''0.0'') \<rparr>"

definition never_answers :: "nat \<Rightarrow> pyexn + response" where
  "never_answers attempt = Inl RequestException"

definition answers_200 :: "string \<Rightarrow> nat \<Rightarrow> pyexn + response" where
  "answers_200 body attempt = Inr \<lparr> status_code = 200, reason = ''OK'', resp_text = body \<rparr>"

text \<open>A transport that raises on the first \<open>k\<close> attempts and answers with \<open>response\<close>
  from then on.\<close>

definition answers_after :: "nat \<Rightarrow> response \<Rightarrow> nat \<Rightarrow> pyexn + response" where
  "answers_after k response attempt = (if attempt < k then Inl RequestException else Inr response)"

section \<open>Reading a trace\<close>

fun is_post :: "event \<Rightarrow> bool" where
  "is_post (EvPost attempt req) = True"
| "is_post _ = False"

text \<open>The events of the attempts \<open>first, \<dots>, first + k - 1\<close> when each of them raises:
  the attempt, then two seconds of sleep.\<close>

definition raising_attempts :: "request \<Rightarrow> nat \<Rightarrow> nat \<Rightarrow> event list" where
  "raising_attempts req first k = concat (map (\<lambda>i. [EvPost i req, EvSleep 2]) [first..<first + k])"

text \<open>The segments of the specification's examples: \<open>hi\<close> at 65.25 seconds and \<open>bye\<close> at
  0; and two segments of which the first has a blank text.\<close>

definition example_segments :: "json list" where
  "example_segments =
     [JObj [(''start'', JFloat (Finite (261 / 4))), (''text'', JStr ''hi'')],
      JObj [(''start'', JInt 0), (''text'', JStr ''bye'')]]"

definition blank_first_segments :: "json list" where
  "blank_first_segments =
     [JObj [(''start'', JInt 0), (''text'', JStr '' '')],
      JObj [(''start'', JInt 2), (''text'', JStr ''bye'')]]"


definition verbose_response :: "json list \<Rightarrow> json" where
  "verbose_response segments = JObj [(''task'', JStr ''translate''), (''segments'', JArr segments)]"

section \<open>Properties of the string functions\<close>

lemma py_split_nonempty: "py_split c s \<noteq> []"
  by (induction s) (auto split: list.splits)

lemma py_split_no_separator: "c \<notin> set s \<Longrightarrow> py_split c s = [s]"
  by (induction s) auto

lemma py_split_two_pieces: "c \<in> set s \<Longrightarrow> tl (py_split c s) \<noteq> []"
  by (induction s) (auto simp: py_split_nonempty split: list.splits)

lemma last_py_split_append:
  "c \<notin> set ext \<Longrightarrow> last (py_split c (stem @ c # ext)) = ext"
proof (induction stem)
  case Nil
  then show ?case by (simp add: py_split_no_separator)
next
  case (Cons x stem)
  then show ?case
    using py_split_two_pieces [of c "stem @ c # ext"]
    by (cases "py_split c (stem @ c # ext)") (auto simp: py_split_nonempty)
qed

lemma file_extension_after_last_dot:
  "CHR ''.'' \<notin> set ext \<Longrightarrow> file_extension (stem @ ''.'' @ ext) = py_lower ext"
  by (simp add: file_extension_def last_py_split_append)

lemma file_extension_dotless:
  "CHR ''.'' \<notin> set file_path \<Longrightarrow> file_extension file_path = py_lower file_path"
  by (simp add: file_extension_def py_split_no_separator)

section \<open>Validation of the file path\<close>

lemma process_unsupported:
  "isfile w file_path \<Longrightarrow> file_extension file_path \<notin> set SUPPORTED_AUDIO_FORMATS \<Longrightarrow>
   process_translation_request w model file_path preset user_input response_format temperature
     max_retries
   = (Inr (''Unsupported audio format '' @ [CHR 0x27] @ file_extension file_path @ [CHR 0x27] @ ''.'',
           False, ''400 Bad Request''), [])"
  by (simp add: process_translation_request_def)

lemma process_supported_reads:
  "isfile w file_path \<Longrightarrow> file_extension file_path \<in> set SUPPORTED_AUDIO_FORMATS \<Longrightarrow>
   \<exists>evs. snd (process_translation_request w model file_path preset user_input response_format
               temperature max_retries)
         = EvRead file_path # evs"
  by (simp add: process_translation_request_def Let_def
           split: sum.splits option.splits prod.splits)

text \<open>
  C8. A path of an existing file is \<open>stem.ext\<close> with no \<open>.\<close> in \<open>ext\<close>, and the
  lowercased \<open>ext\<close> is not a supported format: the handler returns the text
  \<open>Unsupported audio format 'ext'.\<close>, which starts with \<open>Unsupported audio format\<close>,
  with success false and status \<open>400 Bad Request\<close>, and has done nothing on the way: the
  file is not read and no request is sent.
\<close>

theorem unsupported_extension_rejected:
  assumes "isfile w file_path"
    and "file_path = stem @ ''.'' @ ext"
    and "CHR ''.'' \<notin> set ext"
    and "py_lower ext \<notin> set SUPPORTED_AUDIO_FORMATS"
  shows "process_translation_request w model file_path preset user_input response_format
           temperature max_retries
         = (Inr (''Unsupported audio format '' @ [CHR 0x27] @ py_lower ext @ [CHR 0x27] @ ''.'',
                 False, ''400 Bad Request''), [])
       \<and> startswith (''Unsupported audio format '' @ [CHR 0x27] @ py_lower ext @ [CHR 0x27] @ ''.'')
            ''Unsupported audio format''"
proof -
  have ext: "file_extension file_path = py_lower ext"
    using assms(2,3) file_extension_after_last_dot [of ext stem] by simp
  with assms(1,4) show ?thesis
    using process_unsupported [of w file_path model preset user_input response_format
        temperature max_retries]
    by simp
qed

theorem unsupported_extension_rejected_witness:
  "isfile (example_world never_answers (Inl JSONDecodeError)) ''a.txt''
   \<and> ''a.txt'' = ''a'' @ ''.'' @ ''txt''
   \<and> CHR ''.'' \<notin> set ''txt''
   \<and> py_lower ''txt'' \<notin> set SUPPORTED_AUDIO_FORMATS
   \<and> process_translation_request (example_world never_answers (Inl JSONDecodeError))
         ''whisper-large-v3'' ''a.txt'' DEFAULT_PROMPT [] ''json'' (Finite 0) 2
       = (Inr (''Unsupported audio format '' @ [CHR 0x27] @ ''txt'' @ [CHR 0x27] @ ''.'',
               False, ''400 Bad Request''), [])"
proof -
  have h1: "isfile (example_world never_answers (Inl JSONDecodeError)) ''a.txt''"
    by (simp add: example_world_def)
  have h2: "''a.txt'' = ''a'' @ ''.'' @ ''txt''" by simp
  have h3: "CHR ''.'' \<notin> set ''txt''" by simp
  have h4: "py_lower ''txt'' \<notin> set SUPPORTED_AUDIO_FORMATS"
    by (simp add: py_lower_def lower_char_def char_of_def bit_Suc_0_iff SUPPORTED_AUDIO_FORMATS_def)
  have h5: "py_lower ''txt'' = ''txt''" by (simp add: py_lower_def lower_char_def char_of_def bit_Suc_0_iff)
  show ?thesis
    using unsupported_extension_rejected [OF h1 h2 h3 h4, of "''whisper-large-v3''"
        DEFAULT_PROMPT "[]" "''json''" "Finite 0" 2] h1 h3 h4 h5
    by simp
qed

text \<open>
  C10. For the path of an existing file with no \<open>.\<close> in it, the extension the handler
  extracts is the whole path in lower case. So the handler goes on to read the file
  exactly when the lowercased path is itself a supported format, and otherwise returns
  the unsupported-format result without doing anything.
\<close>

theorem dotless_path_extension:
  assumes "isfile w file_path" and "CHR ''.'' \<notin> set file_path"
  shows "file_extension file_path = py_lower file_path
       \<and> (py_lower file_path \<in> set SUPPORTED_AUDIO_FORMATS \<longleftrightarrow>
            (\<exists>evs. snd (process_translation_request w model file_path preset user_input
                          response_format temperature max_retries) = EvRead file_path # evs))
       \<and> (py_lower file_path \<notin> set SUPPORTED_AUDIO_FORMATS \<longleftrightarrow>
            process_translation_request w model file_path preset user_input response_format
              temperature max_retries
            = (Inr (''Unsupported audio format '' @ [CHR 0x27] @ py_lower file_path @ [CHR 0x27] @ ''.'',
                    False, ''400 Bad Request''), []))"
proof -
  let ?run = "process_translation_request w model file_path preset user_input response_format
                temperature max_retries"
  have ext: "file_extension file_path = py_lower file_path"
    using assms(2) by (rule file_extension_dotless)
  have reads: "\<exists>evs. snd ?run = EvRead file_path # evs"
    if "py_lower file_path \<in> set SUPPORTED_AUDIO_FORMATS"
    using that assms(1) ext process_supported_reads [of w file_path] by simp
  have rejected: "?run = (Inr (''Unsupported audio format '' @ [CHR 0x27] @ py_lower file_path
                                @ [CHR 0x27] @ ''.'', False, ''400 Bad Request''), [])"
    if "py_lower file_path \<notin> set SUPPORTED_AUDIO_FORMATS"
    using that assms(1) ext process_unsupported [of w file_path] by simp
  from ext reads rejected show ?thesis by (cases "py_lower file_path \<in> set SUPPORTED_AUDIO_FORMATS") auto
qed

theorem dotless_path_extension_witness:
  "isfile (example_world never_answers (Inl JSONDecodeError)) ''wav''
   \<and> CHR ''.'' \<notin> set ''wav''
   \<and> file_extension ''wav'' = ''wav''
   \<and> ''wav'' \<in> set SUPPORTED_AUDIO_FORMATS
   \<and> (\<exists>evs. snd (process_translation_request (example_world never_answers (Inl JSONDecodeError))
                   ''whisper-large-v3'' ''wav'' DEFAULT_PROMPT [] ''json'' (Finite 0) 2)
             = EvRead ''wav'' # evs)"
proof -
  have h1: "isfile (example_world never_answers (Inl JSONDecodeError)) ''wav''"
    by (simp add: example_world_def)
  have h2: "CHR ''.'' \<notin> set ''wav''" by simp
  have h3: "py_lower ''wav'' = ''wav''" by (simp add: py_lower_def lower_char_def char_of_def bit_Suc_0_iff)
  have h4: "''wav'' \<in> set SUPPORTED_AUDIO_FORMATS" by (simp add: SUPPORTED_AUDIO_FORMATS_def)
  show ?thesis
    using dotless_path_extension [OF h1 h2, of "''whisper-large-v3''"
        DEFAULT_PROMPT "[]" "''json''" "Finite 0" 2] h1 h2 h3 h4
    by simp
qed

section \<open>The success flag and the status\<close>

lemma digit_char_cases:
  assumes "(d::nat) < 10"
  shows "d = 0 \<or> d = 1 \<or> d = 2 \<or> d = 3 \<or> d = 4 \<or> d = 5 \<or> d = 6 \<or> d = 7 \<or> d = 8 \<or> d = 9"
  using assms by arith

lemma of_char_digit_char: "d < 10 \<Longrightarrow> of_char (digit_char d) = 48 + d"
  using digit_char_cases [of d] by (auto simp: digit_char_def)

lemma digit_char_not_space: "d < 10 \<Longrightarrow> digit_char d \<noteq> CHR '' ''"
  using digit_char_cases [of d] by (auto simp: digit_char_def)

lemma digits_value_snoc:
  "digits_value (s @ [c]) = 10 * digits_value s + (of_char c - 48)"
  by (simp add: digits_value_def)

lemma digits_value_str_nat: "digits_value (str_nat n) = n"
proof (induction n rule: str_nat.induct)
  case (1 n)
  show ?case
  proof (cases "n < 10")
    case True
    then show ?thesis
      by (subst str_nat.simps) (simp add: digits_value_def of_char_digit_char)
  next
    case False
    with "1.IH" have "digits_value (str_nat (n div 10)) = n div 10" by simp
    with False show ?thesis
      by (subst str_nat.simps) (simp add: digits_value_snoc of_char_digit_char)
  qed
qed

lemma str_nat_no_space: "CHR '' '' \<notin> set (str_nat n)"
proof (induction n rule: str_nat.induct)
  case (1 n)
  show ?case
  proof (cases "n < 10")
    case True
    then show ?thesis
      using digit_char_not_space [of n] by (subst str_nat.simps) auto
  next
    case False
    with "1.IH" have "CHR '' '' \<notin> set (str_nat (n div 10))" by simp
    with False show ?thesis
      using digit_char_not_space [of "n mod 10"] by (subst str_nat.simps) auto
  qed
qed

lemma str_int_no_space: "CHR '' '' \<notin> set (str_int i)"
  by (simp add: str_int_def str_nat_no_space)

lemma str_nat_nonempty: "str_nat n \<noteq> []"
  by (subst str_nat.simps) simp

lemma str_nat_first_not_minus: "hd (str_nat n) \<noteq> CHR ''-''"
proof (induction n rule: str_nat.induct)
  case (1 n)
  show ?case
  proof (cases "n < 10")
    case True
    then show ?thesis
      using digit_char_cases [of n] by (subst str_nat.simps) (auto simp: digit_char_def)
  next
    case False
    with "1.IH" have "hd (str_nat (n div 10)) \<noteq> CHR ''-''" by simp
    with False show ?thesis
      by (subst str_nat.simps) (simp add: str_nat_nonempty)
  qed
qed

lemma str_int_200: "str_int i = ''200'' \<Longrightarrow> i = 200"
proof -
  assume a: "str_int i = ''200''"
  show ?thesis
  proof (cases "i < 0")
    case True
    with a show ?thesis by (simp add: str_int_def)
  next
    case False
    with a have "str_nat (nat i) = ''200''" by (simp add: str_int_def)
    then have "digits_value (str_nat (nat i)) = digits_value ''200''" by simp
    then have "nat i = 200" by (simp add: digits_value_str_nat) (simp add: digits_value_def)
    with False show ?thesis by simp
  qed
qed

lemma split_at_first_space:
  "CHR '' '' \<notin> set xs \<Longrightarrow> xs @ CHR '' '' # ys = us @ CHR '' '' # vs \<Longrightarrow> CHR '' '' \<notin> set us
   \<Longrightarrow> xs = us"
proof (induction xs arbitrary: us)
  case Nil
  then show ?case by (cases us) auto
next
  case (Cons x xs)
  then show ?case by (cases us) auto
qed

lemma status_line_200_OK:
  "str_int code @ '' '' @ rsn = ''200 OK'' \<Longrightarrow> code = 200"
proof -
  assume "str_int code @ '' '' @ rsn = ''200 OK''"
  then have "str_int code @ CHR '' '' # rsn = ''200'' @ CHR '' '' # ''OK''" by simp
  then have "str_int code = ''200''"
    using split_at_first_space [of "str_int code" rsn "''200''" "''OK''"] str_int_no_space [of code]
    by simp
  then show ?thesis by (rule str_int_200)
qed

lemma bind_Inr_iff: "bind m f = Inr y \<longleftrightarrow> (\<exists>x. m = Inr x \<and> f x = Inr y)"
  by (cases m) (simp_all add: bind_def)

lemma bind_Inl_iff: "bind m f = Inl e \<longleftrightarrow> m = Inl e \<or> (\<exists>x. m = Inr x \<and> f x = Inl e)"
  by (cases m) (simp_all add: bind_def)

lemma bind_simps [simp]: "bind (Inl e) f = Inl e" "bind (Inr x) f = f x"
  by (simp_all add: bind_def)

lemma segments_text_agrees:
  "segments_text line response_json = Inr (Some r) \<Longrightarrow> status_agrees r"
  by (auto simp: segments_text_def bind_Inr_iff status_agrees_def)

lemma handle_response_agrees:
  assumes "handle_response w api_response_format response_format response = Inr (Some r)"
  shows "status_agrees r"
proof (cases "status_code response = 200")
  case True
  with assms show ?thesis
    by (auto simp: handle_response_def status_agrees_def
             dest: segments_text_agrees split: if_splits sum.splits)
next
  case False
  with assms have r: "r = (resp_text response, False,
                            str_int (status_code response) @ '' '' @ reason response)"
    by (simp add: handle_response_def)
  from False have "str_int (status_code response) @ '' '' @ reason response \<noteq> ''200 OK''"
    using status_line_200_OK [of "status_code response" "reason response"] by blast
  with r show ?thesis by (simp add: status_agrees_def)
qed

lemma retry_loop_agrees:
  "status_agrees (fst (retry_loop w req api_response_format response_format left attempt))"
proof (induction left arbitrary: attempt)
  case 0
  show ?case by (simp add: status_agrees_def)
next
  case (Suc left)
  obtain r' evs' where rest:
    "retry_loop w req api_response_format response_format left (Suc attempt) = (r', evs')"
    by (cases "retry_loop w req api_response_format response_format left (Suc attempt)")
  with Suc [of "Suc attempt"] have r': "status_agrees r'" by simp
  show ?case
  proof (cases "bind (post w attempt req) (handle_response w api_response_format response_format)")
    case (Inl e)
    with rest r' show ?thesis by simp
  next
    case (Inr outcome)
    show ?thesis
    proof (cases outcome)
      case None
      with Inr rest r' show ?thesis by simp
    next
      case (Some r)
      with Inr have "\<exists>response. handle_response w api_response_format response_format response
                       = Inr (Some r)"
        by (auto simp: bind_Inr_iff)
      then have "status_agrees r" by (auto dest: handle_response_agrees)
      with Inr Some show ?thesis by simp
    qed
  qed
qed

lemma process_result_cases:
  assumes "fst (process_translation_request w model file_path preset user_input response_format
                  temperature max_retries) = Inr r"
  shows "r = (''File not found.'', False, ''400 Bad Request'')
       \<or> r = (''Unsupported audio format '' @ [CHR 0x27] @ file_extension file_path @ [CHR 0x27] @ ''.'',
              False, ''400 Bad Request'')
       \<or> r = (''Error reading audio file.'', False, ''400 Bad Request'')
       \<or> r = (''Unknown response format.'', False, ''400 Bad Request'')
       \<or> (\<exists>req api_response_format.
             r = fst (retry_loop w req api_response_format response_format (nat max_retries) 0))"
proof -
  let ?loop = "\<lambda>audio_data prompt api. retry_loop w
                  (build_request w model file_path audio_data prompt api temperature) api
                  response_format (nat max_retries) 0"
  have loop: "\<And>audio_data prompt api. fst (case ?loop audio_data prompt api of
                  (r, evs) \<Rightarrow> (Inr r :: pyexn + result, EvRead file_path # evs))
               = Inr (fst (?loop audio_data prompt api))"
    by (simp split: prod.splits)
  from assms show ?thesis
    unfolding process_translation_request_def Let_def
    by (auto simp: loop split: if_splits sum.splits option.splits)
qed

text \<open>
  C9. Whenever the handler returns a result, its success flag is true exactly when its
  status is \<open>200 OK\<close>: the status \<open>200 OK but failed to parse JSON\<close>, every
  \<open>400 Bad Request\<close>, the status of a response with another code and
  \<open>Failed after all retries\<close> all come with the flag false.
\<close>

theorem success_iff_status_200_OK:
  assumes "fst (process_translation_request w model file_path preset user_input response_format
                  temperature max_retries) = Inr (translation_result, success, status)"
  shows "success \<longleftrightarrow> status = ''200 OK''"
proof -
  let ?r = "(translation_result, success, status)"
  have "status_agrees ?r"
    using process_result_cases [OF assms]
  proof (elim disjE exE)
    fix req api_response_format
    assume "?r = fst (retry_loop w req api_response_format response_format (nat max_retries) 0)"
    then show ?thesis
      using retry_loop_agrees [of w req api_response_format response_format "nat max_retries" 0]
      by simp
  qed (simp_all add: status_agrees_def)
  then show ?thesis by (simp add: status_agrees_def)
qed

lemmas run_eval = process_translation_request_def example_world_def file_extension_def py_lower_def lower_char_def
  char_of_def bit_Suc_0_iff SUPPORTED_AUDIO_FORMATS_def prepare_prompt_def api_response_format_of_def
  build_request_def handle_response_def never_answers_def answers_200_def DEFAULT_PROMPT_def
  Let_def

theorem success_iff_status_200_OK_witness:
  "fst (process_translation_request (example_world (answers_200 ''<html>'') (Inl JSONDecodeError))
        ''whisper-large-v3'' ''a.mp3'' DEFAULT_PROMPT [] ''json'' (Finite 0) 2)
     = Inr (''Error parsing JSON response.'', False, ''200 OK but failed to parse JSON'')
   \<and> (False \<longleftrightarrow> ''200 OK but failed to parse JSON'' = ''200 OK'')"
proof -
  have run: "fst (process_translation_request (example_world (answers_200 ''<html>'') (Inl JSONDecodeError))
        ''whisper-large-v3'' ''a.mp3'' DEFAULT_PROMPT [] ''json'' (Finite 0) 2)
     = Inr (''Error parsing JSON response.'', False, ''200 OK but failed to parse JSON'')"
    by (simp add: run_eval eval_nat_numeral)
  from run success_iff_status_200_OK [OF run] show ?thesis by blast
qed

section \<open>The retry loop\<close>

lemma raising_attempts_0 [simp]: "raising_attempts req first 0 = []"
  by (simp add: raising_attempts_def)

lemma raising_attempts_Suc:
  "raising_attempts req first (Suc k) = EvPost first req # EvSleep 2 # raising_attempts req (Suc first) k"
proof -
  have "[first..<first + Suc k] = first # [Suc first..<Suc first + k]"
    using upt_conv_Cons [of first "first + Suc k"] by simp
  then show ?thesis by (simp add: raising_attempts_def)
qed

lemma retry_loop_all_raise:
  assumes "\<forall>i<left. \<exists>e. bind (post w (first + i) req) (handle_response w api rf) = Inl e"
  shows "retry_loop w req api rf left first
         = ((''Failed after all retries.'', False, ''Failed after all retries''),
            raising_attempts req first left)"
  using assms
proof (induction left arbitrary: first)
  case 0
  show ?case by simp
next
  case (Suc left)
  from Suc.prems obtain e where e: "bind (post w first req) (handle_response w api rf) = Inl e"
    by force
  have "\<forall>i<left. \<exists>e. bind (post w (Suc first + i) req) (handle_response w api rf) = Inl e"
    using Suc.prems by (metis Suc_less_eq add_Suc_shift)
  from Suc.IH [OF this] e show ?case
    by (simp add: raising_attempts_Suc)
qed

lemma retry_loop_returns:
  assumes "k < left"
    and "\<forall>i<k. \<exists>e. bind (post w (first + i) req) (handle_response w api rf) = Inl e"
    and "bind (post w (first + k) req) (handle_response w api rf) = Inr (Some r)"
  shows "retry_loop w req api rf left first
         = (r, raising_attempts req first k @ [EvPost (first + k) req])"
  using assms
proof (induction k arbitrary: first left)
  case 0
  then obtain left' where "left = Suc left'" by (cases left) auto
  with 0 show ?case by simp
next
  case (Suc k)
  then obtain left' where left: "left = Suc left'" and k: "k < left'" by (cases left) auto
  from Suc.prems obtain e where e: "bind (post w first req) (handle_response w api rf) = Inl e"
    by force
  have raise: "\<forall>i<k. \<exists>e. bind (post w (Suc first + i) req) (handle_response w api rf) = Inl e"
    using Suc.prems(2) by (metis Suc_less_eq add_Suc_shift)
  have ret: "bind (post w (Suc first + k) req) (handle_response w api rf) = Inr (Some r)"
    using Suc.prems(3) by simp
  from Suc.IH [OF k raise ret] e left show ?case
    by (simp add: raising_attempts_Suc)
qed

lemma retry_loop_posts_bounded:
  "length (filter is_post (snd (retry_loop w req api rf left first))) \<le> left"
proof (induction left arbitrary: first)
  case 0
  show ?case by simp
next
  case (Suc left)
  obtain r' evs' where rest: "retry_loop w req api rf left (Suc first) = (r', evs')"
    by (cases "retry_loop w req api rf left (Suc first)")
  with Suc [of "Suc first"] have "length (filter is_post evs') \<le> left" by simp
  with rest show ?case
    by (simp split: sum.splits option.splits)
qed

lemma retry_loop_sleeps_two:
  "EvSleep n \<in> set (snd (retry_loop w req api rf left first)) \<Longrightarrow> n = 2"
proof (induction left arbitrary: first)
  case 0
  then show ?case by simp
next
  case (Suc left)
  obtain r' evs' where rest: "retry_loop w req api rf left (Suc first) = (r', evs')"
    by (cases "retry_loop w req api rf left (Suc first)")
  with Suc.IH [of "Suc first"] have "EvSleep n \<in> set evs' \<Longrightarrow> n = 2" by simp
  with rest Suc.prems show ?case
    by (auto split: sum.splits option.splits)
qed

text \<open>An attempt after the first is made only when the one before it did not return.\<close>

lemma retry_loop_next_attempt:
  "EvPost (Suc i) req' \<in> set (snd (retry_loop w req api rf left first)) \<Longrightarrow> first \<le> i \<Longrightarrow>
   (\<forall>r. bind (post w i req) (handle_response w api rf) \<noteq> Inr (Some r))"
proof (induction left arbitrary: first)
  case 0
  then show ?case by simp
next
  case (Suc left)
  obtain r' evs' where rest: "retry_loop w req api rf left (Suc first) = (r', evs')"
    by (cases "retry_loop w req api rf left (Suc first)")
  show ?case
  proof (cases "i = first")
    case True
    with Suc.prems(1) show ?thesis
      by (auto split: sum.splits option.splits)
  next
    case False
    with Suc.prems(2) have le: "Suc first \<le> i" by simp
    have "EvPost (Suc i) req' \<in> set evs'"
      using Suc.prems(1) rest False le by (auto split: sum.splits option.splits)
    with Suc.IH [of "Suc first"] rest le show ?thesis by simp
  qed
qed

section \<open>From the handler to its loop\<close>

lemma process_reaches_loop:
  assumes "isfile w file_path"
    and "file_extension file_path \<in> set SUPPORTED_AUDIO_FORMATS"
    and "read_file w file_path = Inr audio_data"
    and "prepare_prompt w preset user_input = Inr prompt"
    and "api_response_format_of response_format = Some api"
    and "req = build_request w model file_path audio_data prompt api temperature"
  shows "process_translation_request w model file_path preset user_input response_format
           temperature max_retries
         = (Inr (fst (retry_loop w req api response_format (nat max_retries) 0)),
            EvRead file_path # snd (retry_loop w req api response_format (nat max_retries) 0))"
  using assms
  by (simp add: process_translation_request_def Let_def split: prod.splits)

lemma process_trace_cases:
  "snd (process_translation_request w model file_path preset user_input response_format
          temperature max_retries) = []
   \<or> snd (process_translation_request w model file_path preset user_input response_format
          temperature max_retries) = [EvRead file_path]
   \<or> (\<exists>req api. snd (process_translation_request w model file_path preset user_input
                        response_format temperature max_retries)
          = EvRead file_path # snd (retry_loop w req api response_format (nat max_retries) 0))"
proof -
  let ?loop = "\<lambda>audio_data prompt api. retry_loop w
                  (build_request w model file_path audio_data prompt api temperature) api
                  response_format (nat max_retries) 0"
  have loop: "\<And>audio_data prompt api. snd (case ?loop audio_data prompt api of
                  (r, evs) \<Rightarrow> (Inr r :: pyexn + result, EvRead file_path # evs))
               = EvRead file_path # snd (?loop audio_data prompt api)"
    by (simp split: prod.splits)
  show ?thesis
    unfolding process_translation_request_def Let_def
    by (auto simp: loop split: if_splits sum.splits option.splits)
qed

lemma handle_response_never_falls_through:
  "api_response_format_of response_format = Some api \<Longrightarrow>
   handle_response w api response_format response \<noteq> Inr None"
  by (auto simp: api_response_format_of_def handle_response_def segments_text_def bind_Inr_iff
           split: if_splits sum.splits)

section \<open>Exceptions leaving the handler\<close>

text \<open>
  C1. The preset is the default prompt, or a name whose lookup gives a template, as every
  preset the node offers is: its choices are the default prompt and the names of the
  loaded presets. Then no exception leaves the handler. Whatever the file system, the
  transport and the parser do (a missing file, an unsupported extension, a read error,
  an unknown response format, an HTTP error, a request that raises, a body that does not
  parse, an exception while the answer is worked on, no attempt left), it returns a
  result: a text, a success flag and a status.
\<close>

theorem never_raises_past_its_boundary:
  assumes "preset = DEFAULT_PROMPT \<or> (\<exists>prompt_template. get_prompt_content w preset = Inr prompt_template)"
  shows "\<exists>translation_result success status.
           fst (process_translation_request w model file_path preset user_input response_format
                  temperature max_retries) = Inr (translation_result, success, status)"
proof -
  from assms have "\<exists>prompt. prepare_prompt w preset user_input = Inr prompt"
    by (auto simp: prepare_prompt_def)
  then obtain prompt where prompt: "prepare_prompt w preset user_input = Inr prompt" ..
  have "\<exists>r. fst (process_translation_request w model file_path preset user_input response_format
                    temperature max_retries) = Inr r"
    unfolding process_translation_request_def Let_def
    by (auto simp: prompt split: if_splits sum.splits option.splits prod.splits)
  then show ?thesis by auto
qed

theorem never_raises_past_its_boundary_witness:
  "(\<exists>prompt_template.
      get_prompt_content (example_world never_answers (Inl JSONDecodeError)) ''formal''
      = Inr prompt_template)
   \<and> (\<exists>translation_result success status.
         fst (process_translation_request (example_world never_answers (Inl JSONDecodeError))
                ''whisper-large-v3'' ''a.mp3'' ''formal'' ''in plain words'' ''json'' (Finite 0) 2)
         = Inr (translation_result, success, status))"
proof -
  have known: "\<exists>prompt_template.
      get_prompt_content (example_world never_answers (Inl JSONDecodeError)) ''formal''
      = Inr prompt_template"
    by (simp add: example_world_def)
  then have "''formal'' = DEFAULT_PROMPT
             \<or> (\<exists>prompt_template.
                   get_prompt_content (example_world never_answers (Inl JSONDecodeError)) ''formal''
                   = Inr prompt_template)" ..
  from known never_raises_past_its_boundary [OF this] show ?thesis by blast
qed

section \<open>The retry policy\<close>

lemma retry_loop_sleeps_after_raise:
  "snd (retry_loop w req api rf left first) = pre @ EvPost i req' # suf \<Longrightarrow>
   post w i req = Inl e \<Longrightarrow> \<exists>rest. suf = EvSleep 2 # rest"
proof (induction left arbitrary: first pre)
  case 0
  then show ?case by simp
next
  case (Suc left)
  obtain r' evs' where rest: "retry_loop w req api rf left (Suc first) = (r', evs')"
    by (cases "retry_loop w req api rf left (Suc first)")
  let ?outcome = "bind (post w first req) (handle_response w api rf)"
  show ?case
  proof (cases pre)
    case Nil
    with Suc.prems(1) rest have "i = first"
      by (auto split: sum.splits option.splits)
    with Suc.prems(2) have "?outcome = Inl e" by simp
    with Suc.prems(1) rest Nil show ?thesis by auto
  next
    case (Cons p pre')
    show ?thesis
    proof (cases ?outcome)
      case (Inl e')
      with Suc.prems(1) rest Cons have "EvSleep 2 # evs' = pre' @ EvPost i req' # suf" by simp
      then obtain pre'' where "evs' = pre'' @ EvPost i req' # suf"
        by (cases pre') auto
      with Suc.IH [of "Suc first" pre''] rest Suc.prems(2) show ?thesis by simp
    next
      case (Inr outcome)
      show ?thesis
      proof (cases outcome)
        case None
        with Inr Suc.prems(1) rest Cons have "evs' = pre' @ EvPost i req' # suf" by simp
        with Suc.IH [of "Suc first" pre'] rest Suc.prems(2) show ?thesis by simp
      next
        case (Some r)
        with Inr Suc.prems(1) Cons show ?thesis by simp
      qed
    qed
  qed
qed

lemma retry_loop_post_request:
  "EvPost i req' \<in> set (snd (retry_loop w req api rf left first)) \<Longrightarrow> req' = req"
proof (induction left arbitrary: first)
  case 0
  then show ?case by simp
next
  case (Suc left)
  obtain r' evs' where rest: "retry_loop w req api rf left (Suc first) = (r', evs')"
    by (cases "retry_loop w req api rf left (Suc first)")
  with Suc.IH [of "Suc first"] have "EvPost i req' \<in> set evs' \<Longrightarrow> req' = req" by simp
  with rest Suc.prems show ?case
    by (auto split: sum.splits option.splits)
qed

text \<open>
  C3. The handler makes at most \<open>max_retries\<close> HTTP attempts, and every sleep in its
  trace lasts 2 seconds. An attempt whose request raises is followed at once by such a
  sleep. When the handler gets as far as the loop with the request \<open>req\<close>: if each of
  the \<open>max_retries\<close> attempts raises, it has made them in order, slept after each, and
  returns \<open>Failed after all retries.\<close>; if the first \<open>k < max_retries\<close> attempts raise
  and the next one is answered with a response from which the handler returns \<open>r\<close>, it
  returns \<open>r\<close> after \<open>k + 1\<close> attempts and \<open>k\<close> sleeps, the attempts left unused.
\<close>

theorem retry_policy:
  "length (filter is_post (snd (process_translation_request w model file_path preset user_input
                                  response_format temperature max_retries))) \<le> nat max_retries
   \<and> (\<forall>n. EvSleep n \<in> set (snd (process_translation_request w model file_path preset
                                     user_input response_format temperature max_retries))
          \<longrightarrow> n = 2)
   \<and> (\<forall>pre i req' suf e.
          snd (process_translation_request w model file_path preset user_input response_format
                 temperature max_retries) = pre @ EvPost i req' # suf
          \<and> post w i req' = Inl e
          \<longrightarrow> (\<exists>rest. suf = EvSleep 2 # rest))
   \<and> (isfile w file_path \<and> file_extension file_path \<in> set SUPPORTED_AUDIO_FORMATS
        \<and> read_file w file_path = Inr audio_data
        \<and> prepare_prompt w preset user_input = Inr prompt
        \<and> api_response_format_of response_format = Some api
        \<and> req = build_request w model file_path audio_data prompt api temperature
      \<longrightarrow>
        ((\<forall>i<nat max_retries. \<exists>e. post w i req = Inl e)
          \<longrightarrow> process_translation_request w model file_path preset user_input response_format
                temperature max_retries
              = (Inr (''Failed after all retries.'', False, ''Failed after all retries''),
                 EvRead file_path # raising_attempts req 0 (nat max_retries)))
        \<and> (k < nat max_retries \<and> (\<forall>i<k. \<exists>e. post w i req = Inl e)
            \<and> post w k req = Inr response
            \<and> handle_response w api response_format response = Inr (Some r)
          \<longrightarrow> process_translation_request w model file_path preset user_input response_format
                temperature max_retries
              = (Inr r, EvRead file_path # raising_attempts req 0 k @ [EvPost k req])))"
proof -
  let ?run = "process_translation_request w model file_path preset user_input response_format
                temperature max_retries"
  have bounded: "length (filter is_post (snd ?run)) \<le> nat max_retries"
    using process_trace_cases [of w model file_path preset user_input response_format
        temperature max_retries]
  proof (elim disjE exE)
    fix req0 api0
    assume "snd ?run = EvRead file_path
              # snd (retry_loop w req0 api0 response_format (nat max_retries) 0)"
    then show ?thesis
      using retry_loop_posts_bounded [of w req0 api0 response_format "nat max_retries" 0]
      by simp
  qed simp_all
  have sleeps: "n = 2" if "EvSleep n \<in> set (snd ?run)" for n
    using process_trace_cases [of w model file_path preset user_input response_format
        temperature max_retries] that
  proof (elim disjE exE)
    fix req0 api0
    assume "snd ?run = EvRead file_path
              # snd (retry_loop w req0 api0 response_format (nat max_retries) 0)"
    with that show ?thesis
      using retry_loop_sleeps_two [of n w req0 api0 response_format "nat max_retries" 0]
      by simp
  qed simp_all
  have after_raise: "\<exists>rest. suf = EvSleep 2 # rest"
    if split: "snd ?run = pre @ EvPost i req' # suf" and raises: "post w i req' = Inl e"
    for pre i req' suf e
    using process_trace_cases [of w model file_path preset user_input response_format
        temperature max_retries]
  proof (elim disjE exE)
    assume "snd ?run = []"
    with split show ?thesis by simp
  next
    assume "snd ?run = [EvRead file_path]"
    with split show ?thesis by (cases pre) auto
  next
    fix req0 api0
    let ?evs = "snd (retry_loop w req0 api0 response_format (nat max_retries) 0)"
    assume run: "snd ?run = EvRead file_path # ?evs"
    with split obtain pre' where evs: "?evs = pre' @ EvPost i req' # suf"
      by (cases pre) auto
    then have "EvPost i req' \<in> set ?evs" by simp
    then have "req' = req0" by (rule retry_loop_post_request)
    with evs raises show ?thesis
      using retry_loop_sleeps_after_raise [of w req0 api0 response_format "nat max_retries" 0
          pre' i req' suf e]
      by simp
  qed
  have exhausted: "(\<forall>i<nat max_retries. \<exists>e. post w i req = Inl e)
                \<longrightarrow> ?run = (Inr (''Failed after all retries.'', False, ''Failed after all retries''),
                           EvRead file_path # raising_attempts req 0 (nat max_retries))"
      (is ?exhausted)
    and returned: "k < nat max_retries \<and> (\<forall>i<k. \<exists>e. post w i req = Inl e)
            \<and> post w k req = Inr response
            \<and> handle_response w api response_format response = Inr (Some r)
          \<longrightarrow> ?run = (Inr r, EvRead file_path # raising_attempts req 0 k @ [EvPost k req])"
      (is ?returned)
    if reach: "isfile w file_path" "file_extension file_path \<in> set SUPPORTED_AUDIO_FORMATS"
        "read_file w file_path = Inr audio_data" "prepare_prompt w preset user_input = Inr prompt"
        "api_response_format_of response_format = Some api"
        "req = build_request w model file_path audio_data prompt api temperature"
  proof -
    note run = process_reaches_loop [OF reach, of max_retries]
    show ?exhausted
    proof
      assume "\<forall>i<nat max_retries. \<exists>e. post w i req = Inl e"
      then have "\<forall>i<nat max_retries.
                   \<exists>e. bind (post w (0 + i) req) (handle_response w api response_format) = Inl e"
        by (auto simp: bind_Inl_iff)
      from retry_loop_all_raise [OF this] run show "?run =
          (Inr (''Failed after all retries.'', False, ''Failed after all retries''),
           EvRead file_path # raising_attempts req 0 (nat max_retries))"
        by simp
    qed
    show ?returned
    proof
      assume a: "k < nat max_retries \<and> (\<forall>i<k. \<exists>e. post w i req = Inl e)
            \<and> post w k req = Inr response
            \<and> handle_response w api response_format response = Inr (Some r)"
      then have k: "k < nat max_retries"
        and raise: "\<forall>i<k. \<exists>e. bind (post w (0 + i) req) (handle_response w api response_format)
                            = Inl e"
        and ret: "bind (post w (0 + k) req) (handle_response w api response_format) = Inr (Some r)"
        by (auto simp: bind_Inl_iff)
      from retry_loop_returns [OF k raise ret] run
      show "?run = (Inr r, EvRead file_path # raising_attempts req 0 k @ [EvPost k req])"
        by simp
    qed
  qed
  have c2: "\<forall>n. EvSleep n \<in> set (snd ?run) \<longrightarrow> n = 2"
    using sleeps by blast
  have c3: "\<forall>pre i req' suf e. snd ?run = pre @ EvPost i req' # suf \<and> post w i req' = Inl e
              \<longrightarrow> (\<exists>rest. suf = EvSleep 2 # rest)"
    using after_raise by blast
  have c4: "isfile w file_path \<and> file_extension file_path \<in> set SUPPORTED_AUDIO_FORMATS
        \<and> read_file w file_path = Inr audio_data
        \<and> prepare_prompt w preset user_input = Inr prompt
        \<and> api_response_format_of response_format = Some api
        \<and> req = build_request w model file_path audio_data prompt api temperature
      \<longrightarrow>
        ((\<forall>i<nat max_retries. \<exists>e. post w i req = Inl e)
          \<longrightarrow> ?run
              = (Inr (''Failed after all retries.'', False, ''Failed after all retries''),
                 EvRead file_path # raising_attempts req 0 (nat max_retries)))
        \<and> (k < nat max_retries \<and> (\<forall>i<k. \<exists>e. post w i req = Inl e)
            \<and> post w k req = Inr response
            \<and> handle_response w api response_format response = Inr (Some r)
          \<longrightarrow> ?run
              = (Inr r, EvRead file_path # raising_attempts req 0 k @ [EvPost k req]))"
  proof
    assume "isfile w file_path \<and> file_extension file_path \<in> set SUPPORTED_AUDIO_FORMATS
        \<and> read_file w file_path = Inr audio_data
        \<and> prepare_prompt w preset user_input = Inr prompt
        \<and> api_response_format_of response_format = Some api
        \<and> req = build_request w model file_path audio_data prompt api temperature"
    then have reach: "isfile w file_path" "file_extension file_path \<in> set SUPPORTED_AUDIO_FORMATS"
        "read_file w file_path = Inr audio_data" "prepare_prompt w preset user_input = Inr prompt"
        "api_response_format_of response_format = Some api"
        "req = build_request w model file_path audio_data prompt api temperature"
      by simp_all
    from exhausted [OF reach] returned [OF reach] show "((\<forall>i<nat max_retries. \<exists>e. post w i req = Inl e)
          \<longrightarrow> ?run
              = (Inr (''Failed after all retries.'', False, ''Failed after all retries''),
                 EvRead file_path # raising_attempts req 0 (nat max_retries)))
        \<and> (k < nat max_retries \<and> (\<forall>i<k. \<exists>e. post w i req = Inl e)
            \<and> post w k req = Inr response
            \<and> handle_response w api response_format response = Inr (Some r)
          \<longrightarrow> ?run
              = (Inr r, EvRead file_path # raising_attempts req 0 k @ [EvPost k req]))"
      by (rule conjI)
  qed
  show ?thesis
    by (rule conjI [OF bounded conjI [OF c2 conjI [OF c3 c4]]])
qed

theorem retry_policy_witness:
  "process_translation_request
     (example_world (answers_after 2 \<lparr>status_code = 200, reason = ''OK'', resp_text = ''hola''\<rparr>)
        (Inl JSONDecodeError))
     ''whisper-large-v3'' ''a.mp3'' DEFAULT_PROMPT [] ''text'' (Finite 0) 3
   = (Inr (''hola'', True, ''200 OK''),
      [EvRead ''a.mp3'',
       EvPost 0 (build_request (example_world never_answers (Inl JSONDecodeError))
                   ''whisper-large-v3'' ''a.mp3'' ''RIFF'' None ''text'' (Finite 0)),
       EvSleep 2,
       EvPost 1 (build_request (example_world never_answers (Inl JSONDecodeError))
                   ''whisper-large-v3'' ''a.mp3'' ''RIFF'' None ''text'' (Finite 0)),
       EvSleep 2,
       EvPost 2 (build_request (example_world never_answers (Inl JSONDecodeError))
                   ''whisper-large-v3'' ''a.mp3'' ''RIFF'' None ''text'' (Finite 0))])
   \<and> process_translation_request (example_world never_answers (Inl JSONDecodeError))
       ''whisper-large-v3'' ''a.mp3'' DEFAULT_PROMPT [] ''text'' (Finite 0) 2
     = (Inr (''Failed after all retries.'', False, ''Failed after all retries''),
        [EvRead ''a.mp3'',
         EvPost 0 (build_request (example_world never_answers (Inl JSONDecodeError))
                     ''whisper-large-v3'' ''a.mp3'' ''RIFF'' None ''text'' (Finite 0)),
         EvSleep 2,
         EvPost 1 (build_request (example_world never_answers (Inl JSONDecodeError))
                     ''whisper-large-v3'' ''a.mp3'' ''RIFF'' None ''text'' (Finite 0)),
         EvSleep 2])"
proof -
  let ?resp = "\<lparr>status_code = 200, reason = ''OK'', resp_text = ''hola''\<rparr>"
  let ?w = "example_world (answers_after 2 ?resp) (Inl JSONDecodeError)"
  let ?v = "example_world never_answers (Inl JSONDecodeError)"
  let ?req = "build_request ?v ''whisper-large-v3'' ''a.mp3'' ''RIFF'' None ''text'' (Finite 0)"
  have reach_w: "isfile ?w ''a.mp3'' \<and> file_extension ''a.mp3'' \<in> set SUPPORTED_AUDIO_FORMATS
      \<and> read_file ?w ''a.mp3'' = Inr ''RIFF''
      \<and> prepare_prompt ?w DEFAULT_PROMPT [] = Inr None
      \<and> api_response_format_of ''text'' = Some ''text''
      \<and> ?req = build_request ?w ''whisper-large-v3'' ''a.mp3'' ''RIFF'' None ''text'' (Finite 0)"
    by (simp add: run_eval)
  have answered: "2 < nat 3 \<and> (\<forall>i<2. \<exists>e. post ?w i ?req = Inl e)
      \<and> post ?w 2 ?req = Inr ?resp
      \<and> handle_response ?w ''text'' ''text'' ?resp = Inr (Some (''hola'', True, ''200 OK''))"
    by (simp add: example_world_def answers_after_def handle_response_def)
  have reach_v: "isfile ?v ''a.mp3'' \<and> file_extension ''a.mp3'' \<in> set SUPPORTED_AUDIO_FORMATS
      \<and> read_file ?v ''a.mp3'' = Inr ''RIFF''
      \<and> prepare_prompt ?v DEFAULT_PROMPT [] = Inr None
      \<and> api_response_format_of ''text'' = Some ''text''
      \<and> ?req = build_request ?v ''whisper-large-v3'' ''a.mp3'' ''RIFF'' None ''text'' (Finite 0)"
    by (simp add: run_eval)
  have raises: "\<forall>i<nat 2. \<exists>e. post ?v i ?req = Inl e"
    by (simp add: example_world_def never_answers_def)
  have first: "process_translation_request ?w ''whisper-large-v3'' ''a.mp3'' DEFAULT_PROMPT []
                 ''text'' (Finite 0) 3
               = (Inr (''hola'', True, ''200 OK''),
                  EvRead ''a.mp3'' # raising_attempts ?req 0 2 @ [EvPost 2 ?req])"
    using retry_policy [where w = ?w and model = "''whisper-large-v3''" and file_path = "''a.mp3''"
        and preset = DEFAULT_PROMPT and user_input = "[]" and response_format = "''text''"
        and temperature = "Finite 0" and max_retries = 3 and audio_data = "''RIFF''"
        and prompt = None and api = "''text''" and req = ?req and k = 2 and response = ?resp
        and r = "(''hola'', True, ''200 OK'')"]
      reach_w answered
    by blast
  have second: "process_translation_request ?v ''whisper-large-v3'' ''a.mp3'' DEFAULT_PROMPT []
                 ''text'' (Finite 0) 2
               = (Inr (''Failed after all retries.'', False, ''Failed after all retries''),
                  EvRead ''a.mp3'' # raising_attempts ?req 0 (nat 2))"
    using retry_policy [where w = ?v and model = "''whisper-large-v3''" and file_path = "''a.mp3''"
        and preset = DEFAULT_PROMPT and user_input = "[]" and response_format = "''text''"
        and temperature = "Finite 0" and max_retries = 2 and audio_data = "''RIFF''"
        and prompt = None and api = "''text''" and req = ?req]
      reach_v raises
    by blast
  have trace: "raising_attempts ?req 0 2 = [EvPost 0 ?req, EvSleep 2, EvPost 1 ?req, EvSleep 2]"
    by (simp add: raising_attempts_def upt_rec [of 0 2] upt_rec [of 1 2])
  from first second trace show ?thesis by simp
qed

lemma handle_response_non_200:
  "status_code response \<noteq> 200 \<Longrightarrow>
   handle_response w api rf response
   = Inr (Some (resp_text response, False,
                str_int (status_code response) @ '' '' @ reason response))"
  by (simp add: handle_response_def)

text \<open>
  C2 (as the code has it). The handler has got as far as the loop with the request
  \<open>req\<close>. If the attempts before attempt \<open>k < max_retries\<close> each ended in an exception
  and attempt \<open>k\<close> is answered with a status code other than 200, the handler returns
  the body of that response, success false and the status \<open>code reason\<close>, and attempt
  \<open>k\<close> is the last thing it does. And an attempt \<open>i + 1\<close> is made only when attempt
  \<open>i\<close> ended in an exception: one of the request, or one raised while the handler was
  working on an answer of status 200; never after an answer of another status.
\<close>

theorem non_200_returns_at_once:
  assumes "isfile w file_path"
    and "file_extension file_path \<in> set SUPPORTED_AUDIO_FORMATS"
    and "read_file w file_path = Inr audio_data"
    and "prepare_prompt w preset user_input = Inr prompt"
    and "api_response_format_of response_format = Some api"
    and "req = build_request w model file_path audio_data prompt api temperature"
  shows "(k < nat max_retries
          \<and> (\<forall>i<k. \<exists>e. bind (post w i req) (handle_response w api response_format) = Inl e)
          \<and> post w k req = Inr response \<and> status_code response \<noteq> 200
        \<longrightarrow> process_translation_request w model file_path preset user_input response_format
              temperature max_retries
            = (Inr (resp_text response, False,
                    str_int (status_code response) @ '' '' @ reason response),
               EvRead file_path # raising_attempts req 0 k @ [EvPost k req]))
       \<and> (\<forall>i req'.
             EvPost (Suc i) req' \<in> set (snd (process_translation_request w model file_path preset
                                             user_input response_format temperature max_retries))
           \<longrightarrow> (\<exists>e. post w i req = Inl e)
               \<or> (\<exists>answer e. post w i req = Inr answer \<and> status_code answer = 200
                     \<and> handle_response w api response_format answer = Inl e))"
proof -
  let ?run = "process_translation_request w model file_path preset user_input response_format
                temperature max_retries"
  note run = process_reaches_loop [OF assms, of max_retries]
  have at_once: "?run = (Inr (resp_text response, False,
                               str_int (status_code response) @ '' '' @ reason response),
                         EvRead file_path # raising_attempts req 0 k @ [EvPost k req])"
    if k: "k < nat max_retries"
      and raise: "\<forall>i<k. \<exists>e. bind (post w i req) (handle_response w api response_format) = Inl e"
      and answer: "post w k req = Inr response" and code: "status_code response \<noteq> 200"
  proof -
    from raise have raise': "\<forall>i<k. \<exists>e. bind (post w (0 + i) req)
                                      (handle_response w api response_format) = Inl e"
      by simp
    from answer code have ret: "bind (post w (0 + k) req) (handle_response w api response_format)
        = Inr (Some (resp_text response, False,
                     str_int (status_code response) @ '' '' @ reason response))"
      by (simp add: handle_response_non_200)
    from retry_loop_returns [OF k raise' ret] run show ?thesis by simp
  qed
  have next_attempt: "(\<exists>e. post w i req = Inl e)
             \<or> (\<exists>answer e. post w i req = Inr answer \<and> status_code answer = 200
                   \<and> handle_response w api response_format answer = Inl e)"
    if "EvPost (Suc i) req' \<in> set (snd ?run)" for i req'
  proof -
    from that run
    have "EvPost (Suc i) req' \<in> set (snd (retry_loop w req api response_format (nat max_retries) 0))"
      by simp
    then have no_return: "\<forall>r. bind (post w i req) (handle_response w api response_format)
                               \<noteq> Inr (Some r)"
      by (rule retry_loop_next_attempt) simp
    show ?thesis
    proof (cases "post w i req")
      case (Inl e)
      then show ?thesis by blast
    next
      case (Inr answer)
      with no_return have nr: "\<forall>r. handle_response w api response_format answer \<noteq> Inr (Some r)"
        by simp
      then have code: "status_code answer = 200"
        using handle_response_non_200 [of answer w api response_format] by blast
      from nr handle_response_never_falls_through [OF assms(5), of w answer]
      obtain e where "handle_response w api response_format answer = Inl e"
        by (cases "handle_response w api response_format answer") auto
      with Inr code show ?thesis by blast
    qed
  qed
  from at_once next_attempt show ?thesis by blast
qed

theorem non_200_returns_at_once_witness:
  "process_translation_request
     (example_world
        (answers_after 1 \<lparr>status_code = 429, reason = ''Too Many Requests'', resp_text = ''slow down''\<rparr>)
        (Inl JSONDecodeError))
     ''whisper-large-v3'' ''a.mp3'' DEFAULT_PROMPT [] ''json'' (Finite 0) 3
   = (Inr (''slow down'', False, ''429 Too Many Requests''),
      [EvRead ''a.mp3'',
       EvPost 0 (build_request (example_world never_answers (Inl JSONDecodeError))
                   ''whisper-large-v3'' ''a.mp3'' ''RIFF'' None ''json'' (Finite 0)),
       EvSleep 2,
       EvPost 1 (build_request (example_world never_answers (Inl JSONDecodeError))
                   ''whisper-large-v3'' ''a.mp3'' ''RIFF'' None ''json'' (Finite 0))])"
proof -
  let ?resp = "\<lparr>status_code = 429, reason = ''Too Many Requests'', resp_text = ''slow down''\<rparr>"
  let ?w = "example_world (answers_after 1 ?resp) (Inl JSONDecodeError)"
  let ?v = "example_world never_answers (Inl JSONDecodeError)"
  let ?req = "build_request ?v ''whisper-large-v3'' ''a.mp3'' ''RIFF'' None ''json'' (Finite 0)"
  have h1: "isfile ?w ''a.mp3''" by (simp add: example_world_def)
  have h2: "file_extension ''a.mp3'' \<in> set SUPPORTED_AUDIO_FORMATS" by (simp add: run_eval)
  have h3: "read_file ?w ''a.mp3'' = Inr ''RIFF''" by (simp add: example_world_def)
  have h4: "prepare_prompt ?w DEFAULT_PROMPT [] = Inr None" by (simp add: prepare_prompt_def)
  have h5: "api_response_format_of ''json'' = Some ''json''"
    by (simp add: api_response_format_of_def)
  have h6: "?req = build_request ?w ''whisper-large-v3'' ''a.mp3'' ''RIFF'' None ''json'' (Finite 0)"
    by (simp add: build_request_def example_world_def)
  have answered: "1 < nat 3
      \<and> (\<forall>i<1. \<exists>e. bind (post ?w i ?req) (handle_response ?w ''json'' ''json'') = Inl e)
      \<and> post ?w 1 ?req = Inr ?resp \<and> status_code ?resp \<noteq> 200"
    by (simp add: example_world_def answers_after_def)
  have status: "str_int 429 = ''429''"
    by (simp add: str_int_def str_nat.simps digit_char_def)
  have "process_translation_request ?w ''whisper-large-v3'' ''a.mp3'' DEFAULT_PROMPT [] ''json''
          (Finite 0) 3
        = (Inr (resp_text ?resp, False, str_int (status_code ?resp) @ '' '' @ reason ?resp),
           EvRead ''a.mp3'' # raising_attempts ?req 0 1 @ [EvPost 1 ?req])"
    using non_200_returns_at_once [OF h1 h2 h3 h4 h5 h6, where k = 1 and max_retries = 3
        and response = ?resp] answered
    by blast
  with status show ?thesis by (simp add: raising_attempts_def)
qed

text \<open>
  The claim C2 as it was stated, that only an exception of the request leads to another
  attempt, fails: attempt 0 is answered, with status 200 and the body \<open>[]\<close>; for
  \<open>text_with_linebreaks\<close> the handler calls \<open>get\<close> on the parsed list, which raises
  inside the \<open>try\<close> block, and the handler sleeps and makes attempt 1.
\<close>

theorem retry_after_answered_attempt:
  "post (example_world (answers_200 ''[]'') (Inr (JArr []))) 0
     (build_request (example_world never_answers (Inl JSONDecodeError))
        ''whisper-large-v3'' ''a.mp3'' ''RIFF'' None ''verbose_json'' (Finite 0))
   = Inr \<lparr>status_code = 200, reason = ''OK'', resp_text = ''[]''\<rparr>
   \<and> process_translation_request (example_world (answers_200 ''[]'') (Inr (JArr [])))
       ''whisper-large-v3'' ''a.mp3'' DEFAULT_PROMPT [] ''text_with_linebreaks'' (Finite 0) 2
     = (Inr (''Failed after all retries.'', False, ''Failed after all retries''),
        [EvRead ''a.mp3'',
         EvPost 0 (build_request (example_world never_answers (Inl JSONDecodeError))
                     ''whisper-large-v3'' ''a.mp3'' ''RIFF'' None ''verbose_json'' (Finite 0)),
         EvSleep 2,
         EvPost 1 (build_request (example_world never_answers (Inl JSONDecodeError))
                     ''whisper-large-v3'' ''a.mp3'' ''RIFF'' None ''verbose_json'' (Finite 0)),
         EvSleep 2])"
  by (simp add: run_eval segments_text_def eval_nat_numeral Let_def)

section \<open>The prompt\<close>

lemma replace_in_DEFAULT_PROMPT:
  "py_replace ''[user_input]'' s DEFAULT_PROMPT
   = ''Translate the audio file using the style and guidance of '' @ s"
  by (simp add: DEFAULT_PROMPT_def)

text \<open>
  C6. With the default prompt as preset, the prompt is \<open>None\<close> for an empty user input,
  and no \<open>prompt\<close> field is sent; for any other user input it is the default prompt with
  the trimmed input in the place of \<open>[user_input]\<close>, and it is sent. With any other
  preset, whose lookup gives a template, the prompt is that template with the trimmed
  input in the place of every \<open>[user_input]\<close>, whatever the input is: for an empty input
  the placeholder is replaced by the empty string.
\<close>

theorem prompt_construction:
  "(preset = DEFAULT_PROMPT \<and> user_input = [] \<longrightarrow>
      prepare_prompt w preset user_input = Inr None
      \<and> data_prompt (build_request w model file_path audio_data None api temperature) = None)
   \<and> (preset = DEFAULT_PROMPT \<and> user_input \<noteq> [] \<longrightarrow>
      prepare_prompt w preset user_input
        = Inr (Some (''Translate the audio file using the style and guidance of ''
                     @ py_strip user_input))
      \<and> data_prompt (build_request w model file_path audio_data
                        (Some (''Translate the audio file using the style and guidance of ''
                               @ py_strip user_input)) api temperature)
        = Some (''Translate the audio file using the style and guidance of ''
                @ py_strip user_input))
   \<and> (preset \<noteq> DEFAULT_PROMPT \<and> get_prompt_content w preset = Inr prompt_template \<longrightarrow>
      prepare_prompt w preset user_input
        = Inr (Some (py_replace ''[user_input]'' (py_strip user_input) prompt_template))
      \<and> prepare_prompt w preset []
        = Inr (Some (py_replace ''[user_input]'' [] prompt_template)))"
proof -
  have strip_empty: "py_strip [] = []"
    by (simp add: py_strip_def py_rstrip_def py_lstrip_def)
  show ?thesis
    by (simp add: prepare_prompt_def build_request_def replace_in_DEFAULT_PROMPT strip_empty)
qed

theorem prompt_construction_witness:
  "prepare_prompt (example_world never_answers (Inl JSONDecodeError)) DEFAULT_PROMPT [] = Inr None
   \<and> prepare_prompt (example_world never_answers (Inl JSONDecodeError)) DEFAULT_PROMPT '' plainly ''
     = Inr (Some ''Translate the audio file using the style and guidance of plainly'')
   \<and> prepare_prompt (example_world never_answers (Inl JSONDecodeError)) ''formal'' '' plainly ''
     = Inr (Some ''Formal register. plainly'')
   \<and> prepare_prompt (example_world never_answers (Inl JSONDecodeError)) ''formal'' []
     = Inr (Some ''Formal register. '')"
proof -
  let ?w = "example_world never_answers (Inl JSONDecodeError)"
  have strip: "py_strip '' plainly '' = ''plainly''"
    by (simp add: py_strip_def py_rstrip_def py_lstrip_def is_space_def)
  have other: "''formal'' \<noteq> DEFAULT_PROMPT
               \<and> get_prompt_content ?w ''formal'' = Inr ''Formal register. [user_input]''"
    by (simp add: DEFAULT_PROMPT_def example_world_def)
  have some: "'' plainly '' \<noteq> []" by simp
  have filled: "py_replace ''[user_input]'' ''plainly'' ''Formal register. [user_input]''
                = ''Formal register. plainly''"
      "py_replace ''[user_input]'' [] ''Formal register. [user_input]'' = ''Formal register. ''"
    by simp_all
  from prompt_construction [where preset = DEFAULT_PROMPT and user_input = "[]" and w = ?w]
    prompt_construction [where preset = DEFAULT_PROMPT and user_input = "'' plainly ''"
      and w = ?w] some
    prompt_construction [where preset = "''formal''" and w = ?w
      and prompt_template = "''Formal register. [user_input]''" and user_input = "'' plainly ''"]
    other strip filled
  show ?thesis by simp
qed

section \<open>The JSON formats\<close>

text \<open>What attempt \<open>k\<close> returns is what the handler returns, when the attempts before
  it each ended in an exception.\<close>

lemma process_returns_from_attempt:
  assumes "isfile w file_path"
    and "file_extension file_path \<in> set SUPPORTED_AUDIO_FORMATS"
    and "read_file w file_path = Inr audio_data"
    and "prepare_prompt w preset user_input = Inr prompt"
    and "api_response_format_of response_format = Some api"
    and "req = build_request w model file_path audio_data prompt api temperature"
    and "k < nat max_retries"
    and "\<forall>i<k. \<exists>e. bind (post w i req) (handle_response w api response_format) = Inl e"
    and "post w k req = Inr response"
    and "handle_response w api response_format response = Inr (Some r)"
  shows "process_translation_request w model file_path preset user_input response_format
           temperature max_retries
         = (Inr r, EvRead file_path # raising_attempts req 0 k @ [EvPost k req])"
proof -
  from assms(8) have raise: "\<forall>i<k. \<exists>e. bind (post w (0 + i) req)
                                     (handle_response w api response_format) = Inl e"
    by simp
  from assms(9,10) have ret: "bind (post w (0 + k) req) (handle_response w api response_format)
                              = Inr (Some r)"
    by simp
  from retry_loop_returns [OF assms(7) raise ret]
    process_reaches_loop [OF assms(1-6), of max_retries]
  show ?thesis by simp
qed

lemma handle_response_json:
  assumes "status_code response = 200"
    and "response_format = ''json'' \<or> response_format = ''verbose_json''"
  shows "handle_response w response_format response_format response
         = Inr (Some (case json_loads w (resp_text response) of
                        Inl e \<Rightarrow> (''Error parsing JSON response.'', False,
                                  ''200 OK but failed to parse JSON'')
                      | Inr response_json \<Rightarrow> (json_dumps w response_json 4, True, ''200 OK'')))"
  using assms by (auto simp: handle_response_def split: sum.splits)

text \<open>
  The formats \<open>json\<close> and \<open>verbose_json\<close>: when the handler has got as far as the loop,
  the attempts before attempt \<open>k < max_retries\<close> each ended in an exception and attempt
  \<open>k\<close> is answered with status 200, the handler returns what \<open>json.dumps\<close> with an
  indent of 4 makes of the parsed body, or the parse failure.
\<close>

lemma json_formats_result:
  assumes "response_format = ''json'' \<or> response_format = ''verbose_json''"
    and "isfile w file_path"
    and "file_extension file_path \<in> set SUPPORTED_AUDIO_FORMATS"
    and "read_file w file_path = Inr audio_data"
    and "prepare_prompt w preset user_input = Inr prompt"
    and "req = build_request w model file_path audio_data prompt response_format temperature"
    and "k < nat max_retries"
    and "\<forall>i<k. \<exists>e. bind (post w i req) (handle_response w response_format response_format)
                     = Inl e"
    and "post w k req = Inr response"
    and "status_code response = 200"
  shows "process_translation_request w model file_path preset user_input response_format
           temperature max_retries
         = (Inr (case json_loads w (resp_text response) of
                   Inl e \<Rightarrow> (''Error parsing JSON response.'', False,
                             ''200 OK but failed to parse JSON'')
                 | Inr response_json \<Rightarrow> (json_dumps w response_json 4, True, ''200 OK'')),
            EvRead file_path # raising_attempts req 0 k @ [EvPost k req])"
proof -
  have api: "api_response_format_of response_format = Some response_format"
    using assms(1) by (auto simp: api_response_format_of_def)
  note shaped = handle_response_json [OF assms(10) assms(1), of w]
  show ?thesis
    by (rule process_returns_from_attempt [OF assms(2-5) api assms(6-9) shaped])
qed

section \<open>Text with line breaks\<close>

lemma segments_loop_all_ok:
  "\<forall>segment \<in> set segments. line segment = Inr (f segment) \<Longrightarrow>
   segments_loop line segments translation_text
   = Inr (translation_text @ concat (map f segments))"
  by (induction segments arbitrary: translation_text) simp_all

lemma segments_text_all_ok:
  assumes "dict_get response_json ''segments'' (JArr []) = Inr (JArr segments)"
    and "\<forall>segment \<in> set segments. line segment = Inr (f segment)"
  shows "segments_text line response_json
         = Inr (Some (py_strip (concat (map f segments)), True, ''200 OK''))"
  using assms segments_loop_all_ok [of segments line f "[]"]
  by (simp add: segments_text_def)

lemma linebreak_line_ok:
  "has_text segment \<Longrightarrow> linebreak_line segment = Inr (py_strip (text_of segment) @ [CHR 0x0A])"
  by (cases segment)
     (auto simp: linebreak_line_def split: option.splits json.splits)

lemma handle_response_linebreaks:
  assumes "status_code response = 200"
    and "json_loads w (resp_text response) = Inr response_json"
    and "dict_get response_json ''segments'' (JArr []) = Inr (JArr segments)"
    and "\<forall>segment \<in> set segments. has_text segment"
  shows "handle_response w ''verbose_json'' ''text_with_linebreaks'' response
         = Inr (Some (py_strip (concat (map (\<lambda>segment. py_strip (text_of segment) @ [CHR 0x0A])
                                         segments)),
                      True, ''200 OK''))"
proof -
  from assms(4) have "\<forall>segment \<in> set segments.
      linebreak_line segment = Inr (py_strip (text_of segment) @ [CHR 0x0A])"
    by (simp add: linebreak_line_ok)
  from segments_text_all_ok [OF assms(3) this] assms(1,2) show ?thesis
    by (simp add: handle_response_def)
qed

text \<open>Trimming.\<close>

lemma py_lstrip_no_leading_space: "s \<noteq> [] \<Longrightarrow> \<not> is_space (hd s) \<Longrightarrow> py_lstrip s = s"
  by (cases s) (simp_all add: py_lstrip_def)

lemma py_strip_no_leading_space: "s \<noteq> [] \<Longrightarrow> \<not> is_space (hd s) \<Longrightarrow> py_strip s = py_rstrip s"
  by (simp add: py_strip_def py_lstrip_no_leading_space)

lemma py_rstrip_prefix: "\<exists>spaces. s = py_rstrip s @ spaces"
proof -
  have "rev s = takeWhile is_space (rev s) @ dropWhile is_space (rev s)" by simp
  then have "s = rev (dropWhile is_space (rev s)) @ rev (takeWhile is_space (rev s))"
    by (metis rev_append rev_rev_ident)
  then show ?thesis by (auto simp: py_rstrip_def)
qed

lemma hd_py_rstrip: "py_rstrip s \<noteq> [] \<Longrightarrow> hd (py_rstrip s) = hd s"
  using py_rstrip_prefix [of s] by (metis hd_append2)

lemma hd_py_lstrip: "py_lstrip s \<noteq> [] \<Longrightarrow> \<not> is_space (hd (py_lstrip s))"
  unfolding py_lstrip_def by (rule hd_dropWhile)

lemma hd_py_strip: "py_strip s \<noteq> [] \<Longrightarrow> \<not> is_space (hd (py_strip s))"
proof -
  assume a: "py_strip s \<noteq> []"
  then have "py_lstrip s \<noteq> []"
    by (auto simp: py_strip_def py_rstrip_def)
  with a show ?thesis
    using hd_py_rstrip [of "py_lstrip s"] hd_py_lstrip [of s] by (simp add: py_strip_def)
qed

lemma py_rstrip_Cons:
  "py_rstrip (c # s) = (if py_rstrip s = [] \<and> is_space c then [] else c # py_rstrip s)"
  by (simp add: py_rstrip_def dropWhile_append)

lemma py_rstrip_empty_iff: "py_rstrip s = [] \<longleftrightarrow> (\<forall>c \<in> set s. is_space c)"
  by (auto simp: py_rstrip_def dropWhile_eq_Nil_conv)

lemma py_lstrip_empty_iff: "py_lstrip s = [] \<longleftrightarrow> (\<forall>c \<in> set s. is_space c)"
  by (auto simp: py_lstrip_def dropWhile_eq_Nil_conv)

lemma py_strip_lstrip_rstrip: "py_strip s = py_lstrip (py_rstrip s)"
proof (induction s)
  case Nil
  show ?case by (simp add: py_strip_def py_lstrip_def py_rstrip_def)
next
  case (Cons c s)
  show ?case
  proof (cases "is_space c")
    case True
    then have l: "py_lstrip (c # s) = py_lstrip s" by (simp add: py_lstrip_def)
    show ?thesis
    proof (cases "py_rstrip s = []")
      case True
      then have "py_lstrip s = []" by (simp add: py_rstrip_empty_iff py_lstrip_empty_iff)
      with True \<open>is_space c\<close> l show ?thesis
        by (simp add: py_strip_def py_rstrip_Cons) (simp add: py_rstrip_def py_lstrip_def)
    next
      case False
      with \<open>is_space c\<close> have "py_lstrip (py_rstrip (c # s)) = py_lstrip (py_rstrip s)"
        by (simp add: py_rstrip_Cons py_lstrip_def)
      with Cons l show ?thesis by (simp add: py_strip_def)
    qed
  next
    case False
    then show ?thesis by (simp add: py_strip_def py_lstrip_def py_rstrip_Cons)
  qed
qed

text \<open>
  C7 (as the code has it). The response format is \<open>text_with_linebreaks\<close>, the handler has
  got as far as the loop, the attempts before attempt \<open>k < max_retries\<close> each ended in
  an exception, and attempt \<open>k\<close> is answered with status 200 and a body that parses to
  an object whose \<open>segments\<close> (none counts as empty) are objects with a string as
  \<open>text\<close>, or none. Then the handler returns, with success true and status \<open>200 OK\<close>,
  the text of the specification (each segment's trimmed text and a line break, in order,
  trailing whitespace trimmed) with its leading whitespace trimmed as well. The two are
  the same when the first segment's trimmed text is not empty.
\<close>

theorem linebreaks_text:
  assumes "isfile w file_path"
    and "file_extension file_path \<in> set SUPPORTED_AUDIO_FORMATS"
    and "read_file w file_path = Inr audio_data"
    and "prepare_prompt w preset user_input = Inr prompt"
    and "req = build_request w model file_path audio_data prompt ''verbose_json'' temperature"
    and "k < nat max_retries"
    and "\<forall>i<k. \<exists>e. bind (post w i req)
                     (handle_response w ''verbose_json'' ''text_with_linebreaks'') = Inl e"
    and "post w k req = Inr response"
    and "status_code response = 200"
    and "json_loads w (resp_text response) = Inr response_json"
    and "dict_get response_json ''segments'' (JArr []) = Inr (JArr segments)"
    and "\<forall>segment \<in> set segments. has_text segment"
  shows "process_translation_request w model file_path preset user_input ''text_with_linebreaks''
           temperature max_retries
         = (Inr (py_lstrip (linebreaks_text_as_specified segments), True, ''200 OK''),
            EvRead file_path # raising_attempts req 0 k @ [EvPost k req])
       \<and> (py_strip (text_of (hd segments)) \<noteq> [] \<longrightarrow>
            py_lstrip (linebreaks_text_as_specified segments)
            = linebreaks_text_as_specified segments)"
proof -
  let ?lines = "concat (map (\<lambda>segment. py_strip (text_of segment) @ [CHR 0x0A]) segments)"
  have api: "api_response_format_of ''text_with_linebreaks'' = Some ''verbose_json''"
    by (simp add: api_response_format_of_def)
  have shaped: "handle_response w ''verbose_json'' ''text_with_linebreaks'' response
                = Inr (Some (py_lstrip (linebreaks_text_as_specified segments), True, ''200 OK''))"
    using handle_response_linebreaks [OF assms(9-12)]
    by (simp add: py_strip_lstrip_rstrip linebreaks_text_as_specified_def)
  note run = process_returns_from_attempt [OF assms(1-4) api assms(5-8) shaped]
  have same: "py_lstrip (linebreaks_text_as_specified segments)
              = linebreaks_text_as_specified segments"
    if first: "py_strip (text_of (hd segments)) \<noteq> []"
  proof (cases segments)
    case Nil
    then show ?thesis
      by (simp add: linebreaks_text_as_specified_def py_rstrip_def py_lstrip_def)
  next
    case (Cons segment rest)
    with first have ne: "py_strip (text_of segment) \<noteq> []" by simp
    then have "\<not> is_space (hd (py_strip (text_of segment)))" by (rule hd_py_strip)
    with ne Cons have "?lines \<noteq> []" "\<not> is_space (hd ?lines)" by simp_all
    then have "py_strip ?lines = py_rstrip ?lines" by (rule py_strip_no_leading_space)
    then show ?thesis
      by (simp add: py_strip_lstrip_rstrip linebreaks_text_as_specified_def)
  qed
  from run same show ?thesis by blast
qed

lemmas string_eval = py_strip_def py_rstrip_def py_lstrip_def is_space_def

theorem linebreaks_text_witness:
  "process_translation_request
     (example_world (answers_200 ''{}'') (Inr (verbose_response example_segments)))
     ''whisper-large-v3'' ''a.mp3'' DEFAULT_PROMPT [] ''text_with_linebreaks'' (Finite 0) 2
   = (Inr (''hi'' @ [CHR 0x0A] @ ''bye'', True, ''200 OK''),
      [EvRead ''a.mp3'',
       EvPost 0 (build_request (example_world never_answers (Inl JSONDecodeError))
                   ''whisper-large-v3'' ''a.mp3'' ''RIFF'' None ''verbose_json'' (Finite 0))])"
proof -
  let ?w = "example_world (answers_200 ''{}'') (Inr (verbose_response example_segments))"
  let ?v = "example_world never_answers (Inl JSONDecodeError)"
  let ?req = "build_request ?v ''whisper-large-v3'' ''a.mp3'' ''RIFF'' None ''verbose_json'' (Finite 0)"
  let ?resp = "\<lparr>status_code = 200, reason = ''OK'', resp_text = ''{}''\<rparr>"
  have ext: "file_extension ''a.mp3'' \<in> set SUPPORTED_AUDIO_FORMATS" by (simp add: run_eval)
  have k: "0 < nat 2" by simp
  have h: "isfile ?w ''a.mp3''" "read_file ?w ''a.mp3'' = Inr ''RIFF''"
      "prepare_prompt ?w DEFAULT_PROMPT [] = Inr None"
      "?req = build_request ?w ''whisper-large-v3'' ''a.mp3'' ''RIFF'' None ''verbose_json'' (Finite 0)"
      "\<forall>i<0. \<exists>e. bind (post ?w i ?req)
                     (handle_response ?w ''verbose_json'' ''text_with_linebreaks'') = Inl e"
      "post ?w 0 ?req = Inr ?resp" "status_code ?resp = 200"
      "json_loads ?w (resp_text ?resp) = Inr (verbose_response example_segments)"
    by (simp_all add: example_world_def prepare_prompt_def build_request_def answers_200_def)
  have segs: "dict_get (verbose_response example_segments) ''segments'' (JArr [])
              = Inr (JArr example_segments)"
    by (simp add: verbose_response_def)
  have typed: "\<forall>segment \<in> set example_segments. has_text segment"
    by (simp add: example_segments_def)
  have returned: "py_lstrip (linebreaks_text_as_specified example_segments) = ''hi'' @ [CHR 0x0A] @ ''bye''"
    by (simp add: linebreaks_text_as_specified_def example_segments_def string_eval)
  from linebreaks_text [OF h(1) ext h(2) h(3) h(4) k h(5) h(6) h(7) h(8) segs typed] returned
  show ?thesis by (simp add: raising_attempts_def)
qed

text \<open>
  The claim C7 as it was stated, that only trailing whitespace is trimmed, fails: the
  first of two segments has a blank text, the text of the specification starts with the
  line break of that segment, and the handler returns \<open>bye\<close> alone.
\<close>

theorem blank_first_segment_is_dropped:
  "fst (process_translation_request
          (example_world (answers_200 ''{}'') (Inr (verbose_response blank_first_segments)))
          ''whisper-large-v3'' ''a.mp3'' DEFAULT_PROMPT [] ''text_with_linebreaks'' (Finite 0) 2)
   = Inr (''bye'', True, ''200 OK'')
   \<and> linebreaks_text_as_specified blank_first_segments = [CHR 0x0A] @ ''bye''"
  by (simp add: run_eval segments_text_def linebreak_line_def verbose_response_def
        blank_first_segments_def linebreaks_text_as_specified_def string_eval eval_nat_numeral)

section \<open>Rounding to double\<close>



lemma two_powi_strict_mono: "j < k \<Longrightarrow> (2::rat) powi j < 2 powi k"
  by (rule power_int_strict_increasing) simp_all
















section \<open>Minutes, seconds and milliseconds of a start\<close>














section \<open>Text with timestamps\<close>










end
